theory Spec2Isabelle
  imports Main
begin

section \<open>Strings of the JavaScript runtime\<close>

text \<open>
  A JavaScript string is modelled as an Isabelle \<open>string\<close>: one \<open>char\<close> per UTF-16 code
  unit, restricted to the code units below 256. \<open>length\<close> is the \<open>.length\<close> of the source.
\<close>

definition NL :: char where
  "NL = CHR 0x0A"

definition startsWith :: "string \<Rightarrow> string \<Rightarrow> bool" where
  \<comment> \<open>\<open>s.startsWith(p)\<close>\<close>
  "startsWith s p = (take (length p) s = p)"

definition endsWith :: "string \<Rightarrow> string \<Rightarrow> bool" where
  \<comment> \<open>\<open>s.endsWith(p)\<close>\<close>
  "endsWith s p = (length p \<le> length s \<and> drop (length s - length p) s = p)"

fun includesStr :: "string \<Rightarrow> string \<Rightarrow> bool" where
  \<comment> \<open>\<open>s.includes(sub)\<close>\<close>
  "includesStr [] sub = (sub = [])"
| "includesStr (c # cs) sub = (startsWith (c # cs) sub \<or> includesStr cs sub)"

definition isWhiteSpace :: "char \<Rightarrow> bool" where
  \<comment> \<open>WhiteSpace and LineTerminator code units below 256, as used by \<open>trim\<close>,
      \<open>trimEnd\<close> and the regular expression class \<open>\s\<close>\<close>
  "isWhiteSpace c = (c \<in> {CHR 0x09, CHR 0x0A, CHR 0x0B, CHR 0x0C, CHR 0x0D, CHR 0x20, CHR 0xA0})"

definition trimStart :: "string \<Rightarrow> string" where
  "trimStart s = dropWhile isWhiteSpace s"

definition trimEnd :: "string \<Rightarrow> string" where
  "trimEnd s = rev (dropWhile isWhiteSpace (rev s))"

definition trim :: "string \<Rightarrow> string" where
  "trim s = trimEnd (trimStart s)"

definition sliceTo :: "string \<Rightarrow> int \<Rightarrow> string" where
  \<comment> \<open>\<open>s.slice(0, e)\<close>: a negative end counts from the end of the string\<close>
  "sliceTo s e = (if e < 0 then take (nat (int (length s) + e)) s else take (nat e) s)"

definition digitChar :: "nat \<Rightarrow> char" where
  "digitChar d = ''0123456789'' ! (d mod 10)"

function showNat :: "nat \<Rightarrow> string" where
  "showNat n = (if n < 10 then [digitChar n] else showNat (n div 10) @ [digitChar (n mod 10)])"
  by pat_completeness auto
termination
  by (relation "measure id") auto

declare showNat.simps [simp del]

definition showInt :: "int \<Rightarrow> string" where
  \<comment> \<open>the decimal rendering of an integral number in a template string\<close>
  "showInt i = (if i < 0 then CHR ''-'' # showNat (nat (- i)) else showNat (nat i))"

section \<open>Process runner\<close>

definition truncationSuffix :: "int \<Rightarrow> string" where
  "truncationSuffix maxChars = NL # ''...[truncated to '' @ showInt maxChars @ '' chars]''"

definition clampText :: "string \<Rightarrow> int \<Rightarrow> string" where
  "clampText s maxChars =
     (if int (length s) \<le> maxChars then s
      else sliceTo s maxChars @ truncationSuffix maxChars)"

text \<open>
  What a spawned child does is an input of the model: either the \<open>error\<close> event (the
  promise rejects), or a sequence of data chunks on stdout and stderr followed by
  \<open>close\<close> with an exit code (\<open>None\<close> when the child was killed by a signal).
\<close>

datatype chunk = Stdout string | Stderr string

datatype child = ChildError | ChildClosed "chunk list" "int option"

record capture =
  out :: string
  err :: string

definition onData :: "int \<Rightarrow> capture \<Rightarrow> chunk \<Rightarrow> capture" where
  "onData maxOutputChars c d =
     (case d of
        Stdout x \<Rightarrow>
          (let o1 = out c @ x
           in c\<lparr>out := (if int (length o1) > maxOutputChars then clampText o1 maxOutputChars else o1)\<rparr>)
      | Stderr x \<Rightarrow>
          (let e1 = err c @ x
           in c\<lparr>err := (if int (length e1) > maxOutputChars then clampText e1 maxOutputChars else e1)\<rparr>))"

definition captureAll :: "int \<Rightarrow> chunk list \<Rightarrow> capture" where
  "captureAll maxOutputChars ds = foldl (onData maxOutputChars) \<lparr>out = [], err = []\<rparr> ds"

definition stderrHeader :: string where
  "stderrHeader = NL # ''[stderr]'' @ [NL]"

definition onClose :: "capture \<Rightarrow> string" where
  "onClose c =
     (let combined = trimEnd (out c @ (if err c \<noteq> [] then stderrHeader @ err c else []))
      in if combined \<noteq> [] then combined else ''(no output)'')"

record spawn_result =
  output_text :: string
  exitCode :: "int option"

datatype error =
    PathEscape string
  | InvalidCommandName string
  | NotAllowed string
  | InvalidRegExp string
  | BlockedArgument string
  | DotDotArgument string
  | AbsoluteArgumentOutside string
  | ConfirmationMissing
  | ConfirmationExpired
  | SpawnFailure
  | IOFailure
  | FilenameEmpty
  | FilenameSeparator
  | FilenameInvalid
  | FilenameBadChars
  | KeyExists string

definition spawnAndCapture :: "child \<Rightarrow> int \<Rightarrow> error + spawn_result" where
  \<comment> \<open>command, args and cwd select the child; its behaviour is the argument \<open>ch\<close>\<close>
  "spawnAndCapture ch maxOutputChars =
     (case ch of
        ChildError \<Rightarrow> Inl SpawnFailure
      | ChildClosed ds code \<Rightarrow>
          Inr \<lparr>output_text = onClose (captureAll maxOutputChars ds), exitCode = code\<rparr>)"

section \<open>Paths\<close>

text \<open>
  The POSIX variant of the runtime's \<open>path\<close> module, which the tool server calls for
  every path decision. It is purely lexical: a path is split at \<open>/\<close>, empty and \<open>.\<close>
  segments are dropped and a \<open>..\<close> segment removes the segment before it.
\<close>

definition isAbsolute :: "string \<Rightarrow> bool" where
  "isAbsolute p = (case p of [] \<Rightarrow> False | c # _ \<Rightarrow> c = CHR ''/'')"

fun splitSlash :: "string \<Rightarrow> string list" where
  "splitSlash [] = [[]]"
| "splitSlash (c # cs) =
     (if c = CHR ''/'' then [] # splitSlash cs
      else (case splitSlash cs of [] \<Rightarrow> [[c]] | s # ss \<Rightarrow> (c # s) # ss))"

fun joinSlash :: "string list \<Rightarrow> string" where
  "joinSlash [] = []"
| "joinSlash [s] = s"
| "joinSlash (s # t # ss) = s @ CHR ''/'' # joinSlash (t # ss)"

fun normalizeSegs :: "bool \<Rightarrow> string list \<Rightarrow> string list \<Rightarrow> string list" where
  \<comment> \<open>\<open>normalizeString\<close>: the second argument is the stack of kept segments, last first\<close>
  "normalizeSegs allowAboveRoot acc [] = rev acc"
| "normalizeSegs allowAboveRoot acc (s # ss) =
     (if s = [] \<or> s = ''.'' then normalizeSegs allowAboveRoot acc ss
      else if s = ''..'' then
        (case acc of
           [] \<Rightarrow> normalizeSegs allowAboveRoot (if allowAboveRoot then [''..''] else []) ss
         | t # ts \<Rightarrow>
             if t \<noteq> ''..'' then normalizeSegs allowAboveRoot ts ss
             else normalizeSegs allowAboveRoot (if allowAboveRoot then ''..'' # acc else acc) ss)
      else normalizeSegs allowAboveRoot (s # acc) ss)"

fun resolveScan :: "string list \<Rightarrow> string \<Rightarrow> string \<times> bool" where
  \<comment> \<open>the right-to-left loop of \<open>path.resolve\<close>, over the arguments last first\<close>
  "resolveScan [] acc = (acc, False)"
| "resolveScan (p # ps) acc =
     (if p = [] then resolveScan ps acc
      else if isAbsolute p then (p @ CHR ''/'' # acc, True)
      else resolveScan ps (p @ CHR ''/'' # acc))"

definition path_resolve :: "string \<Rightarrow> string list \<Rightarrow> string" where
  \<comment> \<open>\<open>path.resolve(...paths)\<close> in a process whose working directory is \<open>pcwd\<close>\<close>
  "path_resolve pcwd paths =
     (let (resolvedPath, resolvedAbsolute) = resolveScan (rev paths @ [pcwd]) [];
          n = joinSlash (normalizeSegs (\<not> resolvedAbsolute) [] (splitSlash resolvedPath))
      in if resolvedAbsolute then CHR ''/'' # n
         else if n \<noteq> [] then n else ''.'')"

definition segments :: "string \<Rightarrow> string list" where
  \<comment> \<open>the non-empty segments of a path\<close>
  "segments p = filter (\<lambda>s. s \<noteq> []) (splitSlash p)"

fun dropCommon :: "string list \<Rightarrow> string list \<Rightarrow> string list \<times> string list" where
  "dropCommon (x # xs) (y # ys) = (if x = y then dropCommon xs ys else (x # xs, y # ys))"
| "dropCommon xs ys = (xs, ys)"

definition path_relative :: "string \<Rightarrow> string \<Rightarrow> string \<Rightarrow> string" where
  \<comment> \<open>\<open>path.relative(from, to)\<close>: one \<open>..\<close> for each segment of \<open>from\<close> below the common
      prefix, then the rest of \<open>to\<close>\<close>
  "path_relative pcwd from to =
     (if from = to then []
      else
        (let f = path_resolve pcwd [from]; t = path_resolve pcwd [to]
         in if f = t then []
            else (case dropCommon (segments f) (segments t) of
                    (fs, ts) \<Rightarrow> joinSlash (map (\<lambda>_. ''..'') fs @ ts))))"

definition plainSegments :: "string list \<Rightarrow> bool" where
  \<comment> \<open>the segments of a resolved path: names, none of them empty, \<open>.\<close> or \<open>..\<close>\<close>
  "plainSegments segs =
     list_all (\<lambda>s. s \<noteq> [] \<and> s \<noteq> ''.'' \<and> s \<noteq> ''..'' \<and> CHR ''/'' \<notin> set s) segs"

definition path_normalize :: "string \<Rightarrow> string" where
  "path_normalize p =
     (if p = [] then ''.''
      else
        (let n = joinSlash (normalizeSegs (\<not> isAbsolute p) [] (splitSlash p));
             trailing = (last p = CHR ''/'')
         in if n = [] then (if isAbsolute p then ''/'' else if trailing then ''./'' else ''.'')
            else (if isAbsolute p then [CHR ''/''] else []) @ n @ (if trailing then ''/'' else [])))"

definition path_join :: "string list \<Rightarrow> string" where
  "path_join paths =
     (case filter (\<lambda>s. s \<noteq> []) paths of
        [] \<Rightarrow> ''.''
      | ps \<Rightarrow> path_normalize (joinSlash ps))"

section \<open>Policy, confirmations and the terminal context\<close>

record DangerousPattern =
  rule_command :: string
  argsAnyOf :: "string list option"
  argsRegexAnyOf :: "string list option"

record TerminalPolicy =
  sandboxRoot :: string
  auditLogPath :: string
  allowedCommands :: "string list"
  blockedArgsRegex :: "string list option"
  dangerousCommands :: "string list option"
  dangerousPatterns :: "DangerousPattern list option"
  confirmTtlSeconds :: "int option"
  maxOutputChars :: "int option"
  maxFileReadBytes :: "int option"

datatype stage = Stage1 | Stage2

record PendingConfirmation =
  token :: string
  stage :: stage
  createdAtMs :: int
  expiresAtMs :: int
  command :: string
  args :: "string list"
  cwd :: string
  reason :: string

record TerminalContext =
  policy :: TerminalPolicy
  sandboxRootAbs :: string
  auditLogAbs :: string
  pending :: "string \<rightharpoonup> PendingConfirmation"

text \<open>
  The host is what the process cannot change: its working directory, the home
  directory, and the regular-expression engine (\<open>new RegExp(src)\<close> throws on a source
  that is not valid, \<open>re.test(a)\<close> decides a match).
\<close>

record host =
  processCwd :: string
  homedir :: string
  regexValid :: "string \<Rightarrow> bool"
  regexTest :: "string \<Rightarrow> string \<Rightarrow> bool"

definition createTerminalContext :: "host \<Rightarrow> TerminalPolicy \<Rightarrow> TerminalContext" where
  \<comment> \<open>the context built at startup from a loaded policy\<close>
  "createTerminalContext h pol =
     (let root = path_resolve (processCwd h) [processCwd h, sandboxRoot pol]
      in \<lparr>policy = pol,
          sandboxRootAbs = root,
          auditLogAbs = (if isAbsolute (auditLogPath pol) then auditLogPath pol
                         else path_resolve (processCwd h) [root, auditLogPath pol]),
          pending = Map.empty\<rparr>)"

definition resolveSandboxPath :: "host \<Rightarrow> TerminalContext \<Rightarrow> string \<Rightarrow> error + string" where
  "resolveSandboxPath h c userPath =
     (let abs = (if isAbsolute userPath then path_resolve (processCwd h) [userPath]
                 else path_resolve (processCwd h) [sandboxRootAbs c, userPath]);
          rel = path_relative (processCwd h) (sandboxRootAbs c) abs
      in if startsWith rel ''..'' \<or> isAbsolute rel then Inl (PathEscape userPath)
         else Inr abs)"

section \<open>Argument guard and danger classifier\<close>

definition DQ :: char where
  "DQ = CHR 0x22"

definition isSafeChar :: "char \<Rightarrow> bool" where
  \<comment> \<open>the character class \<open>[a-zA-Z0-9._-]\<close>\<close>
  "isSafeChar c =
     (let n = (of_char c :: nat)
      in (97 \<le> n \<and> n \<le> 122) \<or> (65 \<le> n \<and> n \<le> 90) \<or> (48 \<le> n \<and> n \<le> 57)
         \<or> c = CHR ''.'' \<or> c = CHR ''_'' \<or> c = CHR ''-'')"

definition isSafeCommandName :: "string \<Rightarrow> bool" where
  "isSafeCommandName cmd = (cmd \<noteq> [] \<and> list_all isSafeChar cmd)"

definition truthy :: "string option \<Rightarrow> bool" where
  \<comment> \<open>\<open>if (v)\<close> on a value of type \<open>string | null | undefined\<close>\<close>
  "truthy v = (case v of None \<Rightarrow> False | Some s \<Rightarrow> s \<noteq> [])"

fun regexAnyOf :: "host \<Rightarrow> string \<Rightarrow> string list \<Rightarrow> string list \<Rightarrow> error + string option" where
  \<comment> \<open>the loop over \<open>rule.argsRegexAnyOf\<close>\<close>
  "regexAnyOf h cmd as [] = Inr None"
| "regexAnyOf h cmd as (reStr # res) =
     (if \<not> regexValid h reStr then Inl (InvalidRegExp reStr)
      else if list_ex (regexTest h reStr) as
        then Inr (Some (''Dangerous pattern matched for '' @ [DQ] @ cmd @ [DQ] @ '' ('' @ reStr @ '')''))
      else regexAnyOf h cmd as res)"

fun dangerousRules :: "host \<Rightarrow> string \<Rightarrow> string list \<Rightarrow> DangerousPattern list \<Rightarrow> error + string option" where
  \<comment> \<open>the loop over \<open>policy.dangerousPatterns\<close>\<close>
  "dangerousRules h cmd as [] = Inr None"
| "dangerousRules h cmd as (rule # rules) =
     (if rule_command rule \<noteq> cmd then dangerousRules h cmd as rules
      else if (case argsAnyOf rule of None \<Rightarrow> False | Some xs \<Rightarrow> list_ex (\<lambda>a. a \<in> set as) xs)
        then Inr (Some (''Dangerous pattern matched for '' @ [DQ] @ cmd @ [DQ] @ '' (argsAnyOf)''))
      else
        (case (case argsRegexAnyOf rule of None \<Rightarrow> Inr None | Some res \<Rightarrow> regexAnyOf h cmd as res) of
           Inl e \<Rightarrow> Inl e
         | Inr (Some r) \<Rightarrow> Inr (Some r)
         | Inr None \<Rightarrow> dangerousRules h cmd as rules))"

definition isDangerous :: "host \<Rightarrow> TerminalContext \<Rightarrow> string \<Rightarrow> string list \<Rightarrow> error + string option" where
  "isDangerous h c cmd as =
     (if (case dangerousCommands (policy c) of None \<Rightarrow> False | Some ds \<Rightarrow> cmd \<in> set ds)
        then Inr (Some (''Command '' @ [DQ] @ cmd @ [DQ] @ '' is marked dangerous by policy''))
      else dangerousRules h cmd as (case dangerousPatterns (policy c) of None \<Rightarrow> [] | Some rs \<Rightarrow> rs))"

fun blockedArgs :: "host \<Rightarrow> string list \<Rightarrow> string list \<Rightarrow> error + unit" where
  \<comment> \<open>the loop over \<open>policy.blockedArgsRegex\<close>; \<open>if (bad)\<close> is false when the argument
      found is the empty string\<close>
  "blockedArgs h as [] = Inr ()"
| "blockedArgs h as (reStr # res) =
     (if \<not> regexValid h reStr then Inl (InvalidRegExp reStr)
      else (case find (regexTest h reStr) as of
              None \<Rightarrow> blockedArgs h as res
            | Some bad \<Rightarrow> if bad \<noteq> [] then Inl (BlockedArgument bad) else blockedArgs h as res))"

fun escapeGuard :: "host \<Rightarrow> TerminalContext \<Rightarrow> string list \<Rightarrow> error + unit" where
  \<comment> \<open>the loop over the arguments\<close>
  "escapeGuard h c [] = Inr ()"
| "escapeGuard h c (a # as) =
     (if includesStr a ''..'' then Inl (DotDotArgument a)
      else if startsWith a ''/'' \<and>
              (let abs = path_resolve (processCwd h) [a];
                   rel = path_relative (processCwd h) (sandboxRootAbs c) abs
               in startsWith rel ''..'' \<or> isAbsolute rel)
        then Inl (AbsoluteArgumentOutside a)
      else escapeGuard h c as)"

definition checkArgsAgainstPolicy :: "host \<Rightarrow> TerminalContext \<Rightarrow> string list \<Rightarrow> error + unit" where
  "checkArgsAgainstPolicy h c as =
     (case blockedArgs h as (case blockedArgsRegex (policy c) of None \<Rightarrow> [] | Some rs \<Rightarrow> rs) of
        Inl e \<Rightarrow> Inl e
      | Inr _ \<Rightarrow> escapeGuard h c as)"

section \<open>The tool server's state and its inputs\<close>

datatype keyType = Ed25519 | Rsa

datatype audit_entry =
    RunRequiresConfirmationStage1 string string "string list" string string
  | RunExecuted string "string list" string "int option"
  | ConfirmStage1IssuedStage2 string string string "string list" string string
  | ConfirmExecuted string stage string "string list" string string "int option"
  | ConfirmCancel string bool
  | SshKeygenRequiresConfirmationStage1 string keyType string bool

text \<open>
  The server's state is the context together with what it has done to the outside: the
  calls of \<open>spawn\<close> (command, args, cwd) and the lines appended to the audit log, both in
  order. The timestamp of an audit line is left out.
\<close>

record world =
  ctx :: TerminalContext
  spawned :: "(string \<times> string list \<times> string) list"
  auditLog :: "audit_entry list"

text \<open>
  What one tool call reads from outside: the value of \<open>crypto.randomUUID()\<close>, the clock
  (\<open>Date.now()\<close>, read a second time when a stage-2 token is issued), whether the append
  to the audit log succeeds, what the spawned child does, and for key generation
  whether \<open>mkdir\<close> succeeds and whether the key files exist.
\<close>

record env =
  uuid :: string
  now :: int
  now2 :: int
  auditOk :: bool
  child :: child
  mkdirOk :: bool
  keyExists :: bool
  pubExists :: bool

record confirmation_info =
  rc_token :: string
  rc_reason :: string
  rc_expiresAt :: int

record tool_result =
  res_text :: string
  requiresConfirmation :: "confirmation_info option"

definition appendAudit :: "env \<Rightarrow> world \<Rightarrow> audit_entry \<Rightarrow> error + world" where
  "appendAudit e w entry =
     (if auditOk e then Inr (w\<lparr>auditLog := auditLog w @ [entry]\<rparr>) else Inl IOFailure)"

definition setPending :: "world \<Rightarrow> string \<Rightarrow> PendingConfirmation \<Rightarrow> world" where
  \<comment> \<open>\<open>ctx.pending.set(token, p)\<close>\<close>
  "setPending w t p = w\<lparr>ctx := (ctx w)\<lparr>pending := (pending (ctx w))(t \<mapsto> p)\<rparr>\<rparr>"

definition deletePending :: "world \<Rightarrow> string \<Rightarrow> world" where
  \<comment> \<open>\<open>ctx.pending.delete(token)\<close>\<close>
  "deletePending w t = w\<lparr>ctx := (ctx w)\<lparr>pending := (pending (ctx w))(t := None)\<rparr>\<rparr>"

definition ttlMs :: "TerminalContext \<Rightarrow> int" where
  "ttlMs c = (case confirmTtlSeconds (policy c) of None \<Rightarrow> 90 | Some t \<Rightarrow> t) * 1000"

definition maxOut :: "TerminalContext \<Rightarrow> int" where
  "maxOut c = (case maxOutputChars (policy c) of None \<Rightarrow> 20000 | Some m \<Rightarrow> m)"

definition createPendingConfirmation ::
  "env \<Rightarrow> world \<Rightarrow> string \<Rightarrow> string list \<Rightarrow> string \<Rightarrow> string \<Rightarrow> world \<times> PendingConfirmation" where
  "createPendingConfirmation e w cmd as cwdAbs rsn =
     (let p = \<lparr>token = uuid e, stage = Stage1, createdAtMs = now e,
               expiresAtMs = now e + ttlMs (ctx w),
               command = cmd, args = as, cwd = cwdAbs, reason = rsn\<rparr>
      in (setPending w (uuid e) p, p))"

definition doSpawn :: "world \<Rightarrow> string \<Rightarrow> string list \<Rightarrow> string \<Rightarrow> world" where
  \<comment> \<open>the call \<open>spawn(command, args, {cwd, shell: false})\<close>\<close>
  "doSpawn w cmd as dir = w\<lparr>spawned := spawned w @ [(cmd, as, dir)]\<rparr>"

section \<open>Tools\<close>

text \<open>
  A tool returns the new state together with its result; \<open>Inl\<close> is the error thrown.
  State changes made before a throw stay.
\<close>

definition toolRun ::
  "host \<Rightarrow> env \<Rightarrow> world \<Rightarrow> string \<Rightarrow> string list option \<Rightarrow> string option
     \<Rightarrow> world \<times> (error + tool_result)" where
  "toolRun h e w cmd argsOpt cwdOpt =
     (let as = (case argsOpt of None \<Rightarrow> [] | Some xs \<Rightarrow> xs)
      in case resolveSandboxPath h (ctx w) (case cwdOpt of None \<Rightarrow> ''.'' | Some d \<Rightarrow> d) of
           Inl x \<Rightarrow> (w, Inl x)
         | Inr cwdAbs \<Rightarrow>
             if \<not> isSafeCommandName cmd then (w, Inl (InvalidCommandName cmd))
             else if cmd \<notin> set (allowedCommands (policy (ctx w))) then (w, Inl (NotAllowed cmd))
             else
               (case checkArgsAgainstPolicy h (ctx w) as of
                  Inl x \<Rightarrow> (w, Inl x)
                | Inr _ \<Rightarrow>
                    (case isDangerous h (ctx w) cmd as of
                       Inl x \<Rightarrow> (w, Inl x)
                     | Inr dangerReason \<Rightarrow>
                         if truthy dangerReason then
                           (let rsn = the dangerReason;
                                (w1, p) = createPendingConfirmation e w cmd as cwdAbs rsn
                            in case appendAudit e w1
                                      (RunRequiresConfirmationStage1 (token p) cmd as cwdAbs rsn) of
                                 Inl x \<Rightarrow> (w1, Inl x)
                               | Inr w2 \<Rightarrow>
                                   (w2, Inr \<lparr>res_text =
                                              ''Refusing to execute dangerous command without confirmation.''
                                              @ [NL] @ ''Reason: '' @ rsn @ [NL]
                                              @ ''Step 1/2: run: confirm '' @ token p @ [NL],
                                            requiresConfirmation =
                                              Some \<lparr>rc_token = token p, rc_reason = rsn,
                                                    rc_expiresAt = expiresAtMs p\<rparr>\<rparr>))
                         else
                           (let w1 = doSpawn w cmd as cwdAbs
                            in case spawnAndCapture (child e) (maxOut (ctx w)) of
                                 Inl x \<Rightarrow> (w1, Inl x)
                               | Inr r \<Rightarrow>
                                   (case appendAudit e w1 (RunExecuted cmd as cwdAbs (exitCode r)) of
                                      Inl x \<Rightarrow> (w1, Inl x)
                                    | Inr w2 \<Rightarrow>
                                        (w2, Inr \<lparr>res_text = output_text r,
                                                 requiresConfirmation = None\<rparr>))))))"

text \<open>
  After a stage-2 execution of \<open>ssh-keygen\<close> the source tries to \<open>chmod\<close> the key files;
  every failure there is swallowed and neither the store, the spawn calls nor the result
  depend on it, so the model leaves it out.
\<close>

definition toolConfirm :: "host \<Rightarrow> env \<Rightarrow> world \<Rightarrow> string \<Rightarrow> world \<times> (error + tool_result)" where
  "toolConfirm h e w tok =
     (case pending (ctx w) tok of
        None \<Rightarrow> (w, Inl ConfirmationMissing)
      | Some p \<Rightarrow>
          if now e > expiresAtMs p then (deletePending w tok, Inl ConfirmationExpired)
          else if stage p = Stage1 then
            (let w1 = deletePending w tok;
                 token2 = uuid e;
                 pending2 = \<lparr>token = token2, stage = Stage2, createdAtMs = now2 e,
                             expiresAtMs = now2 e + ttlMs (ctx w),
                             command = command p, args = args p, cwd = cwd p, reason = reason p\<rparr>;
                 w2 = setPending w1 token2 pending2
             in case appendAudit e w2
                       (ConfirmStage1IssuedStage2 tok token2 (command p) (args p) (cwd p) (reason p)) of
                  Inl x \<Rightarrow> (w2, Inl x)
                | Inr w3 \<Rightarrow>
                    (w3, Inr \<lparr>res_text =
                               ''Confirmation step 1/2 accepted.'' @ [NL]
                               @ ''Reason: '' @ reason p @ [NL]
                               @ ''Step 2/2: run: confirm '' @ token2 @ [NL],
                             requiresConfirmation = None\<rparr>))
          else
            (let w1 = deletePending w tok;
                 w2 = doSpawn w1 (command p) (args p) (cwd p)
             in case spawnAndCapture (child e) (maxOut (ctx w)) of
                  Inl x \<Rightarrow> (w2, Inl x)
                | Inr r \<Rightarrow>
                    (case appendAudit e w2
                            (ConfirmExecuted tok (stage p) (command p) (args p) (cwd p) (reason p)
                               (exitCode r)) of
                       Inl x \<Rightarrow> (w2, Inl x)
                     | Inr w3 \<Rightarrow>
                         (w3, Inr \<lparr>res_text = output_text r, requiresConfirmation = None\<rparr>))))"

definition toolCancel :: "env \<Rightarrow> world \<Rightarrow> string \<Rightarrow> world \<times> (error + tool_result)" where
  "toolCancel e w tok =
     (let existed = (pending (ctx w) tok \<noteq> None);
          w1 = deletePending w tok
      in case appendAudit e w1 (ConfirmCancel tok existed) of
           Inl x \<Rightarrow> (w1, Inl x)
         | Inr w2 \<Rightarrow>
             (w2, Inr \<lparr>res_text = (if existed then ''Cancelled pending confirmation.''
                                    else ''No pending confirmation for that token.''),
                      requiresConfirmation = None\<rparr>))"

definition ensureSafeSshKeyFileName :: "string \<Rightarrow> error + string" where
  "ensureSafeSshKeyFileName name =
     (let trimmed = trim name
      in if trimmed = [] then Inl FilenameEmpty
         else if CHR ''/'' \<in> set trimmed \<or> CHR 0x5C \<in> set trimmed then Inl FilenameSeparator
         else if trimmed = ''.'' \<or> trimmed = ''..'' then Inl FilenameInvalid
         else if \<not> list_all isSafeChar trimmed then Inl FilenameBadChars
         else Inr trimmed)"

definition keyTypeName :: "keyType \<Rightarrow> string" where
  "keyTypeName k = (case k of Ed25519 \<Rightarrow> ''ed25519'' | Rsa \<Rightarrow> ''rsa'')"

record ssh_params =
  p_type :: "keyType option"
  p_filename :: "string option"
  p_comment :: "string option"
  p_passphrase :: "string option"
  p_overwrite :: "bool option"

definition sshKeygenArgs :: "keyType \<Rightarrow> string \<Rightarrow> string \<Rightarrow> string \<Rightarrow> string list" where
  "sshKeygenArgs kt keyPath comment passphrase =
     [''-t'', keyTypeName kt, ''-f'', keyPath, ''-C'', comment, ''-N'', passphrase]"

definition sshReason :: "keyType \<Rightarrow> string \<Rightarrow> bool \<Rightarrow> string \<Rightarrow> string" where
  "sshReason kt filename exists passphrase =
     ''Requested SSH key generation under ~/.ssh.'' @ [NL]
     @ ''Type: '' @ keyTypeName kt @ [NL]
     @ ''Target: ~/.ssh/'' @ filename @ [NL]
     @ (if exists then ''NOTE: existing key files will be overwritten.'' @ [NL] else [])
     @ (if passphrase \<noteq> [] then ''NOTE: a passphrase was provided.'' @ [NL]
        else ''NOTE: empty passphrase.'' @ [NL])"

definition toolGenerateSshKey ::
  "host \<Rightarrow> env \<Rightarrow> world \<Rightarrow> ssh_params \<Rightarrow> world \<times> (error + tool_result)" where
  "toolGenerateSshKey h e w ps =
     (let kt = (case p_type ps of None \<Rightarrow> Ed25519 | Some k \<Rightarrow> k)
      in case ensureSafeSshKeyFileName (case p_filename ps of None \<Rightarrow> ''id_ed25519'' | Some f \<Rightarrow> f) of
           Inl x \<Rightarrow> (w, Inl x)
         | Inr filename \<Rightarrow>
             (let comment = (case p_comment ps of None \<Rightarrow> ''smartos-mcp'' | Some c \<Rightarrow> c);
                  passphrase = (case p_passphrase ps of None \<Rightarrow> [] | Some s \<Rightarrow> s);
                  overwrite = (case p_overwrite ps of None \<Rightarrow> False | Some b \<Rightarrow> b);
                  home = homedir h;
                  sshDir = path_resolve (processCwd h) [home, ''.ssh''];
                  keyPath = path_join [sshDir, filename]
              in if \<not> mkdirOk e then (w, Inl IOFailure)
                 else
                   (let exists = (keyExists e \<or> pubExists e)
                    in if exists \<and> \<not> overwrite then (w, Inl (KeyExists filename))
                       else
                         (let as = sshKeygenArgs kt keyPath comment passphrase;
                              rsn = sshReason kt filename exists passphrase;
                              (w1, p) = createPendingConfirmation e w ''ssh-keygen'' as home rsn
                          in case appendAudit e w1
                                    (SshKeygenRequiresConfirmationStage1 (token p) kt keyPath overwrite) of
                               Inl x \<Rightarrow> (w1, Inl x)
                             | Inr w2 \<Rightarrow>
                                 (w2, Inr \<lparr>res_text =
                                            ''Refusing to generate SSH key under ~/.ssh without confirmation.''
                                            @ [NL] @ ''Reason:'' @ [NL] @ rsn @ [NL]
                                            @ ''Step 1/2: run: confirm '' @ token p @ [NL],
                                          requiresConfirmation =
                                            Some \<lparr>rc_token = token p, rc_reason = rsn,
                                                  rc_expiresAt = expiresAtMs p\<rparr>\<rparr>)))))"

text \<open>
  A request to the server, and a session: a sequence of requests, each with its inputs.
  The requests are the four tools that spawn or use the confirmation store. The file
  tools (\<open>read_file\<close>, \<open>write_file\<close>, \<open>diff\<close>, \<open>search\<close>) do neither: they resolve a path,
  work on the file system and append one audit entry.
\<close>

datatype request =
    Run string "string list option" "string option"
  | Confirm string
  | Cancel string
  | GenerateSshKey ssh_params

definition handle :: "host \<Rightarrow> env \<Rightarrow> world \<Rightarrow> request \<Rightarrow> world \<times> (error + tool_result)" where
  "handle h e w rq =
     (case rq of
        Run cmd argsOpt cwdOpt \<Rightarrow> toolRun h e w cmd argsOpt cwdOpt
      | Confirm tok \<Rightarrow> toolConfirm h e w tok
      | Cancel tok \<Rightarrow> toolCancel e w tok
      | GenerateSshKey ps \<Rightarrow> toolGenerateSshKey h e w ps)"

fun session :: "host \<Rightarrow> world \<Rightarrow> (env \<times> request) list \<Rightarrow> world" where
  "session h w [] = w"
| "session h w ((e, rq) # rest) = session h (fst (handle h e w rq)) rest"

definition initialWorld :: "host \<Rightarrow> TerminalPolicy \<Rightarrow> world" where
  "initialWorld h pol = \<lparr>ctx = createTerminalContext h pol, spawned = [], auditLog = []\<rparr>"

section \<open>A concrete installation\<close>

text \<open>
  A host, a policy and inputs on which the tools can be run. The policy allows \<open>ls\<close> and
  \<open>rm\<close> and marks \<open>rm\<close> dangerous; \<open>ssh-keygen\<close> is not allowed. The regular-expression
  engine of this host treats a pattern as a literal: it matches the arguments that
  contain it.
\<close>

definition demoHost :: host where
  "demoHost = \<lparr>processCwd = ''/work'', homedir = ''/home/dev'',
                regexValid = (\<lambda>_. True), regexTest = (\<lambda>re a. includesStr a re)\<rparr>"

definition demoPolicy :: TerminalPolicy where
  "demoPolicy = \<lparr>sandboxRoot = ''s'', auditLogPath = ''.mcp-audit/terminal-server.jsonl'',
                  allowedCommands = [''ls'', ''rm''], blockedArgsRegex = Some [],
                  dangerousCommands = Some [''rm''], dangerousPatterns = Some [],
                  confirmTtlSeconds = Some 90, maxOutputChars = Some 20000,
                  maxFileReadBytes = Some 200000\<rparr>"

definition demoEnv :: "string \<Rightarrow> int \<Rightarrow> env" where
  \<comment> \<open>the inputs of one call: the UUID drawn and the time; everything outside succeeds\<close>
  "demoEnv t n = \<lparr>uuid = t, now = n, now2 = n, auditOk = True,
                   child = ChildClosed [Stdout ''ok''] (Some 0),
                   mkdirOk = True, keyExists = False, pubExists = False\<rparr>"

definition demoWorld :: world where
  "demoWorld = initialWorld demoHost demoPolicy"

definition defaultSshParams :: ssh_params where
  \<comment> \<open>\<open>generate_ssh_key({})\<close>\<close>
  "defaultSshParams = \<lparr>p_type = None, p_filename = None, p_comment = None,
                        p_passphrase = None, p_overwrite = None\<rparr>"

section \<open>JSON values and their serialization\<close>

text \<open>
  The values \<open>JSON.parse\<close> returns and \<open>JSON.stringify\<close> accepts. Numbers are the
  integral ones. An object is the list of its members in enumeration order, each key
  once. \<open>JSON.stringify\<close> with one argument writes no whitespace.
\<close>

datatype json =
    JNull
  | JBool bool
  | JNum int
  | JStr string
  | JArr "json list"
  | JObj "(string \<times> json) list"

definition hexDigit :: "nat \<Rightarrow> char" where
  "hexDigit n = ''0123456789abcdef'' ! (n mod 16)"

definition escapeChar :: "char \<Rightarrow> string" where
  \<comment> \<open>\<open>QuoteJSONString\<close> on one code unit\<close>
  "escapeChar c =
     (if c = DQ then [CHR 0x5C, DQ]
      else if c = CHR 0x5C then [CHR 0x5C, CHR 0x5C]
      else if c = CHR 0x08 then [CHR 0x5C, CHR ''b'']
      else if c = CHR 0x0C then [CHR 0x5C, CHR ''f'']
      else if c = CHR 0x0A then [CHR 0x5C, CHR ''n'']
      else if c = CHR 0x0D then [CHR 0x5C, CHR ''r'']
      else if c = CHR 0x09 then [CHR 0x5C, CHR ''t'']
      else if (of_char c :: nat) < 32
        then [CHR 0x5C, CHR ''u'', CHR ''0'', CHR ''0'',
              hexDigit ((of_char c :: nat) div 16), hexDigit ((of_char c :: nat) mod 16)]
      else [c])"

definition quoteJSON :: "string \<Rightarrow> string" where
  "quoteJSON s = DQ # concat (map escapeChar s) @ [DQ]"

fun stringify :: "json \<Rightarrow> string"
  and stringifyElements :: "json list \<Rightarrow> string"
  and stringifyMembers :: "(string \<times> json) list \<Rightarrow> string" where
  "stringify JNull = ''null''"
| "stringify (JBool b) = (if b then ''true'' else ''false'')"
| "stringify (JNum n) = showInt n"
| "stringify (JStr s) = quoteJSON s"
| "stringify (JArr xs) = CHR ''['' # stringifyElements xs @ '']''"
| "stringify (JObj kvs) = CHR ''{'' # stringifyMembers kvs @ ''}''"
| "stringifyElements [] = []"
| "stringifyElements [x] = stringify x"
| "stringifyElements (x # y # ys) = stringify x @ CHR '','' # stringifyElements (y # ys)"
| "stringifyMembers [] = []"
| "stringifyMembers [(k, v)] = quoteJSON k @ CHR '':'' # stringify v"
| "stringifyMembers ((k, v) # m # ms) =
     quoteJSON k @ CHR '':'' # stringify v @ CHR '','' # stringifyMembers (m # ms)"

section \<open>Action parser\<close>

datatype action =
    Final string
  | Tool string string "(string \<times> json) list option"

fun scanObject :: "string \<Rightarrow> int \<Rightarrow> bool \<Rightarrow> bool \<Rightarrow> nat \<Rightarrow> nat option" where
  \<comment> \<open>the loop of \<open>extractFirstJsonObjectString\<close>: the rest of the string from index \<open>i\<close> on,
      the depth, inStr and escape, and \<open>i - start\<close>; the result is \<open>i + 1 - start\<close> at the return\<close>
  "scanObject [] depth inStr escape i = None"
| "scanObject (ch # cs) depth inStr escape i =
     (if inStr then
        (if escape then scanObject cs depth True False (Suc i)
         else if ch = CHR 0x5C then scanObject cs depth True True (Suc i)
         else if ch = DQ then scanObject cs depth False escape (Suc i)
         else scanObject cs depth True escape (Suc i))
      else if ch = DQ then scanObject cs depth True escape (Suc i)
      else
        (let d1 = (if ch = CHR ''{'' then depth + 1 else depth);
             d2 = (if ch = CHR ''}'' then d1 - 1 else d1)
         in if d2 = 0 then Some (Suc i) else scanObject cs d2 False escape (Suc i)))"

definition extractFirstJsonObjectString :: "string \<Rightarrow> string option" where
  "extractFirstJsonObjectString s =
     (let fromStart = dropWhile (\<lambda>c. c \<noteq> CHR ''{'') s
      in if fromStart = [] then None
         else (case scanObject fromStart 0 False False 0 of
                 None \<Rightarrow> None
               | Some n \<Rightarrow> Some (take n fromStart)))"



definition toLowerAscii :: "string \<Rightarrow> string" where
  \<comment> \<open>the case folding of a regular expression with the flag \<open>i\<close>, on ASCII letters\<close>
  "toLowerAscii s = map (\<lambda>c. if 65 \<le> (of_char c :: nat) \<and> (of_char c :: nat) \<le> 90
                               then char_of ((of_char c :: nat) + 32) else c) s"

definition stripLeadingFence :: "string \<Rightarrow> string" where
  \<comment> \<open>\<open>s.replace(/^```(?:json)?\s*/i, '')\<close>\<close>
  "stripLeadingFence s =
     (if startsWith s ''```'' then
        (let r = drop 3 s;
             r2 = (if toLowerAscii (take 4 r) = ''json'' then drop 4 r else r)
         in dropWhile isWhiteSpace r2)
      else s)"

definition stripTrailingFence :: "string \<Rightarrow> string" where
  \<comment> \<open>\<open>s.replace(/```$/i, '')\<close>\<close>
  "stripTrailingFence s = (if endsWith s ''```'' then take (length s - 3) s else s)"

text \<open>
  \<open>JSON.parse\<close> is the runtime's: the model takes it as the argument \<open>parse\<close>, which
  returns the value or the message of the SyntaxError thrown.
\<close>

definition safeJsonParse :: "(string \<Rightarrow> string + json) \<Rightarrow> string \<Rightarrow> string + json" where
  "safeJsonParse parse s =
     (let trimmed = trim s;
          unfenced = trim (stripTrailingFence (stripLeadingFence trimmed));
          extracted = (case extractFirstJsonObjectString unfenced of None \<Rightarrow> unfenced | Some x \<Rightarrow> x)
      in parse extracted)"

definition isRecord :: "json \<Rightarrow> bool" where
  "isRecord v = (case v of JObj _ \<Rightarrow> True | _ \<Rightarrow> False)"

definition parseAction :: "(string \<Rightarrow> string + json) \<Rightarrow> string \<Rightarrow> string + action" where
  "parseAction parse modelText =
     (case safeJsonParse parse modelText of
        Inl msg \<Rightarrow> Inl msg
      | Inr v \<Rightarrow>
          (case v of
             JObj members \<Rightarrow>
               (let ty = map_of members ''type''
                in if ty = Some (JStr ''final'') then
                     (case map_of members ''text'' of
                        Some (JStr t) \<Rightarrow> Inr (Final t)
                      | _ \<Rightarrow> Inl ''final.text must be a string'')
                   else if ty = Some (JStr ''tool'') then
                     (case map_of members ''server'' of
                        Some (JStr sname) \<Rightarrow>
                          (case map_of members ''tool'' of
                             Some (JStr tname) \<Rightarrow>
                               (case map_of members ''args'' of
                                  None \<Rightarrow> Inr (Tool sname tname (Some []))
                                | Some (JObj a) \<Rightarrow> Inr (Tool sname tname (Some a))
                                | Some _ \<Rightarrow> Inl ''tool.args must be an object'')
                           | _ \<Rightarrow> Inl ''tool.tool must be a string'')
                      | _ \<Rightarrow> Inl ''tool.server must be a string'')
                   else Inl (''Action.type must be '' @ [DQ] @ ''tool'' @ [DQ] @ '' or ''
                             @ [DQ] @ ''final'' @ [DQ]))
           | _ \<Rightarrow> Inl ''Model did not return a JSON object''))"

definition renderAction :: "action \<Rightarrow> json" where
  \<comment> \<open>the action as the JSON value the prompt asks the model for\<close>
  "renderAction a =
     (case a of
        Final t \<Rightarrow> JObj [(''type'', JStr ''final''), (''text'', JStr t)]
      | Tool sname tname ao \<Rightarrow>
          JObj ([(''type'', JStr ''tool''), (''server'', JStr sname), (''tool'', JStr tname)]
                @ (case ao of None \<Rightarrow> [] | Some a \<Rightarrow> [(''args'', JObj a)])))"

definition withDefaultArgs :: "action \<Rightarrow> action" where
  \<comment> \<open>a missing \<open>args\<close> read as the empty object\<close>
  "withDefaultArgs a = (case a of Tool sname tname None \<Rightarrow> Tool sname tname (Some []) | _ \<Rightarrow> a)"

section \<open>Agent loop\<close>

datatype role = RSystem | RUser | RAssistant | RTool

record ChatMsg =
  role :: role
  content :: string

record PendingConfirmationInfo =
  pc_token :: string
  pc_reason :: "string option"
  pc_expiresAt :: "string option"




text \<open>
  The state of a chatbot: its history and the wizard flag. \<open>dispatched\<close> records the
  calls of \<open>callTool\<close> (server, tool, args) in order.
\<close>

record chatbot =
  history :: "ChatMsg list"
  awaitingSshWizardInput :: bool
  dispatched :: "(string \<times> string \<times> (string \<times> json) list) list"


definition push :: "chatbot \<Rightarrow> role \<Rightarrow> string \<Rightarrow> chatbot" where
  \<comment> \<open>\<open>history.push({role, content})\<close>\<close>
  "push st r c = st\<lparr>history := history st @ [\<lparr>role = r, content = c\<rparr>]\<rparr>"


















section \<open>A concrete conversation\<close>

text \<open>
  A reader for JSON texts, in the place of the runtime's \<open>JSON.parse\<close> when the agent
  loop is run on an example; the properties below are proved for every parser. It
  reads the texts without fractions, exponents and code units above 255.
\<close>

definition isJsonSpace :: "char \<Rightarrow> bool" where
  "isJsonSpace c = (c = CHR 0x20 \<or> c = CHR 0x09 \<or> c = CHR 0x0A \<or> c = CHR 0x0D)"

definition skipSpace :: "string \<Rightarrow> string" where
  "skipSpace s = dropWhile isJsonSpace s"

definition hexValue :: "char \<Rightarrow> nat option" where
  "hexValue c =
     (let n = (of_char c :: nat)
      in if 48 \<le> n \<and> n \<le> 57 then Some (n - 48)
         else if 97 \<le> n \<and> n \<le> 102 then Some (n - 87)
         else if 65 \<le> n \<and> n \<le> 70 then Some (n - 55)
         else None)"

definition unescapeChar :: "char \<Rightarrow> char option" where
  "unescapeChar e =
     (if e = DQ then Some DQ
      else if e = CHR 0x5C then Some (CHR 0x5C)
      else if e = CHR ''/'' then Some (CHR ''/'')
      else if e = CHR ''b'' then Some (CHR 0x08)
      else if e = CHR ''f'' then Some (CHR 0x0C)
      else if e = CHR ''n'' then Some (CHR 0x0A)
      else if e = CHR ''r'' then Some (CHR 0x0D)
      else if e = CHR ''t'' then Some (CHR 0x09)
      else None)"

definition readHex4 :: "string \<Rightarrow> nat option" where
  "readHex4 s =
     (case map hexValue (take 4 s) of
        [Some a, Some b, Some c, Some d] \<Rightarrow> Some (((a * 16 + b) * 16 + c) * 16 + d)
      | _ \<Rightarrow> None)"

fun readStringBody :: "string \<Rightarrow> string \<Rightarrow> (string \<times> string) option" where
  "readStringBody [] acc = None"
| "readStringBody (c # cs) acc =
     (if c = DQ then Some (rev acc, cs)
      else if c = CHR 0x5C then
        (case cs of
           [] \<Rightarrow> None
         | e # es \<Rightarrow>
             if e = CHR ''u'' then
               (case readHex4 es of
                  None \<Rightarrow> None
                | Some n \<Rightarrow> if n < 256 then readStringBody (drop 4 es) (char_of n # acc) else None)
             else (case unescapeChar e of
                     None \<Rightarrow> None
                   | Some x \<Rightarrow> readStringBody es (x # acc)))
      else if (of_char c :: nat) < 32 then None
      else readStringBody cs (c # acc))"

definition isDigit :: "char \<Rightarrow> bool" where
  "isDigit c = (48 \<le> (of_char c :: nat) \<and> (of_char c :: nat) \<le> 57)"

fun readDigits :: "nat \<Rightarrow> string \<Rightarrow> nat \<times> string" where
  "readDigits acc [] = (acc, [])"
| "readDigits acc (c # cs) =
     (if isDigit c then readDigits (acc * 10 + ((of_char c :: nat) - 48)) cs else (acc, c # cs))"

definition readNumber :: "string \<Rightarrow> (int \<times> string) option" where
  "readNumber s =
     (let neg = (s \<noteq> [] \<and> hd s = CHR ''-'');
          ds = (if neg then tl s else s)
      in if ds = [] \<or> \<not> isDigit (hd ds) then None
         else (case readDigits 0 ds of
                 (n, rest) \<Rightarrow>
                   if rest \<noteq> [] \<and> hd rest \<in> {CHR ''.'', CHR ''e'', CHR ''E''} then None
                   else Some (if neg then - int n else int n, rest)))"

fun readValue :: "nat \<Rightarrow> string \<Rightarrow> (json \<times> string) option"
  and readElements :: "nat \<Rightarrow> string \<Rightarrow> (json list \<times> string) option"
  and readMembers :: "nat \<Rightarrow> string \<Rightarrow> ((string \<times> json) list \<times> string) option" where
  "readValue 0 s = None"
| "readValue (Suc n) s =
     (case skipSpace s of
        [] \<Rightarrow> None
      | c # cs \<Rightarrow>
          if c = CHR ''{'' then
            (if startsWith (skipSpace cs) ''}'' then Some (JObj [], tl (skipSpace cs))
             else map_option (\<lambda>(ms, r). (JObj ms, r)) (readMembers n cs))
          else if c = CHR ''['' then
            (if startsWith (skipSpace cs) '']'' then Some (JArr [], tl (skipSpace cs))
             else map_option (\<lambda>(vs, r). (JArr vs, r)) (readElements n cs))
          else if c = DQ then map_option (\<lambda>(x, r). (JStr x, r)) (readStringBody cs [])
          else if startsWith (c # cs) ''true'' then Some (JBool True, drop 4 (c # cs))
          else if startsWith (c # cs) ''false'' then Some (JBool False, drop 5 (c # cs))
          else if startsWith (c # cs) ''null'' then Some (JNull, drop 4 (c # cs))
          else map_option (\<lambda>(i, r). (JNum i, r)) (readNumber (c # cs)))"
| "readElements 0 s = None"
| "readElements (Suc n) s =
     (case readValue n s of
        None \<Rightarrow> None
      | Some (v, r) \<Rightarrow>
          (case skipSpace r of
             [] \<Rightarrow> None
           | c # r1 \<Rightarrow>
               if c = CHR '','' then map_option (\<lambda>(vs, r2). (v # vs, r2)) (readElements n r1)
               else if c = CHR '']'' then Some ([v], r1)
               else None))"
| "readMembers 0 s = None"
| "readMembers (Suc n) s =
     (case skipSpace s of
        [] \<Rightarrow> None
      | q # cs \<Rightarrow>
          if q \<noteq> DQ then None
          else
            (case readStringBody cs [] of
               None \<Rightarrow> None
             | Some (k, r) \<Rightarrow>
                 (case skipSpace r of
                    [] \<Rightarrow> None
                  | col # r1 \<Rightarrow>
                      if col \<noteq> CHR '':'' then None
                      else
                        (case readValue n r1 of
                           None \<Rightarrow> None
                         | Some (v, r2) \<Rightarrow>
                             (case skipSpace r2 of
                                [] \<Rightarrow> None
                              | c # r3 \<Rightarrow>
                                  if c = CHR '','' then
                                    map_option (\<lambda>(ms, r4). ((k, v) # ms, r4)) (readMembers n r3)
                                  else if c = CHR ''}'' then Some ([(k, v)], r3)
                                  else None)))))"

definition readJSON :: "string \<Rightarrow> string + json" where
  "readJSON s =
     (case readValue (2 * length s + 2) s of
        None \<Rightarrow> Inl ''Unexpected token in JSON''
      | Some (v, r) \<Rightarrow>
          if skipSpace r = [] then Inr v
          else Inl ''Unexpected non-whitespace character after JSON'')"






section \<open>The process runner bounds what it captures\<close>

lemma clampText_length:
  "0 \<le> m \<Longrightarrow> int (length (clampText s m)) \<le> m + int (length (truncationSuffix m))"
  by (auto simp: clampText_def sliceTo_def)

lemma onData_bounded:
  assumes "0 \<le> m"
    and "int (length (out c)) \<le> m + int (length (truncationSuffix m))"
    and "int (length (err c)) \<le> m + int (length (truncationSuffix m))"
  shows "int (length (out (onData m c d))) \<le> m + int (length (truncationSuffix m))
       \<and> int (length (err (onData m c d))) \<le> m + int (length (truncationSuffix m))"
  using assms clampText_length[of m]
  by (cases d) (auto simp: onData_def Let_def simp del: length_append)

lemma foldl_onData_bounded:
  assumes "0 \<le> m"
  shows "int (length (out c)) \<le> m + int (length (truncationSuffix m)) \<Longrightarrow>
         int (length (err c)) \<le> m + int (length (truncationSuffix m)) \<Longrightarrow>
         int (length (out (foldl (onData m) c ds))) \<le> m + int (length (truncationSuffix m))
       \<and> int (length (err (foldl (onData m) c ds))) \<le> m + int (length (truncationSuffix m))"
proof (induction ds arbitrary: c)
  case Nil
  then show ?case by simp
next
  case (Cons d ds)
  have "int (length (out (onData m c d))) \<le> m + int (length (truncationSuffix m))
      \<and> int (length (err (onData m c d))) \<le> m + int (length (truncationSuffix m))"
    using onData_bounded[OF assms Cons.prems] .
  then show ?case using Cons.IH[of "onData m c d"] by simp
qed

lemma captureAll_bounded:
  assumes "0 \<le> m"
  shows "int (length (out (captureAll m ds))) \<le> m + int (length (truncationSuffix m))"
    and "int (length (err (captureAll m ds))) \<le> m + int (length (truncationSuffix m))"
  using foldl_onData_bounded[OF assms, of "\<lparr>out = [], err = []\<rparr>" ds] assms
  by (simp_all add: captureAll_def)

lemma trimEnd_length: "length (trimEnd s) \<le> length s"
  unfolding trimEnd_def by (metis length_dropWhile_le length_rev)

lemma truncationSuffix_length: "18 \<le> length (truncationSuffix m)"
  by (simp add: truncationSuffix_def)

lemma onClose_length:
  "length (onClose c) \<le> length (out c) + 10 + length (err c) \<or> length (onClose c) = 11"
proof -
  let ?s = "out c @ (if err c \<noteq> [] then stderrHeader @ err c else [])"
  have "length ?s \<le> length (out c) + 10 + length (err c)"
    by (simp add: stderrHeader_def)
  then have le: "length (trimEnd ?s) \<le> length (out c) + 10 + length (err c)"
    using trimEnd_length[of ?s] by linarith
  show ?thesis
  proof (cases "trimEnd ?s = []")
    case True
    then have "onClose c = ''(no output)''" by (simp add: onClose_def Let_def)
    then show ?thesis by simp
  next
    case False
    then have "onClose c = trimEnd ?s" by (simp add: onClose_def Let_def)
    then show ?thesis using le by simp
  qed
qed

text \<open>
  Claim C6, as amended. For a non-negative \<open>maxOutputChars\<close>, each of the two captured
  streams is at most \<open>maxOutputChars\<close> plus the truncation suffix long, and the output
  returned by the process runner, which joins both streams under a ten-character
  header, is at most twice that bound plus ten long.
\<close>

theorem captured_output_bound:
  assumes "0 \<le> m" and "spawnAndCapture ch m = Inr r"
  shows "\<exists>ds code. ch = ChildClosed ds code
           \<and> int (length (out (captureAll m ds))) \<le> m + int (length (truncationSuffix m))
           \<and> int (length (err (captureAll m ds))) \<le> m + int (length (truncationSuffix m))
           \<and> int (length (output_text r)) \<le> 2 * (m + int (length (truncationSuffix m))) + 10"
proof -
  obtain ds code where ch: "ch = ChildClosed ds code"
    using assms(2) by (cases ch) (auto simp: spawnAndCapture_def)
  let ?c = "captureAll m ds"
  have r: "output_text r = onClose ?c"
    using assms(2) ch by (auto simp: spawnAndCapture_def)
  note bounds = captureAll_bounded[OF assms(1), of ds] truncationSuffix_length[of m] assms(1)
  from onClose_length[of ?c]
  have "int (length (output_text r)) \<le> 2 * (m + int (length (truncationSuffix m))) + 10"
  proof
    assume "length (onClose ?c) \<le> length (out ?c) + 10 + length (err ?c)"
    then have "int (length (onClose ?c)) \<le> int (length (out ?c)) + 10 + int (length (err ?c))"
      by linarith
    then show ?thesis unfolding r using bounds by arith
  next
    assume "length (onClose ?c) = 11"
    then show ?thesis unfolding r using bounds by arith
  qed
  then show ?thesis using ch bounds(1,2) by blast
qed

theorem captured_output_bound_witness:
  "spawnAndCapture (ChildClosed [Stdout ''ab'', Stderr ''c''] (Some 0)) 1
     = Inr \<lparr>output_text = ''a'' @ truncationSuffix 1 @ stderrHeader @ ''c'', exitCode = Some 0\<rparr>
   \<and> int (length (''a'' @ truncationSuffix 1 @ stderrHeader @ ''c''))
       \<le> 2 * (1 + int (length (truncationSuffix 1))) + 10"
proof -
  have s: "spawnAndCapture (ChildClosed [Stdout ''ab'', Stderr ''c''] (Some 0)) 1
     = Inr \<lparr>output_text = ''a'' @ truncationSuffix 1 @ stderrHeader @ ''c'', exitCode = Some 0\<rparr>"
    by code_simp
  have "(0::int) \<le> 1" by simp
  from captured_output_bound[OF this s] s show ?thesis by simp
qed

text \<open>
  The bound of one stream does not hold for the returned output: with
  \<open>maxOutputChars = 1\<close>, a child writing \<open>ab\<close> to stdout and \<open>c\<close> to stderr yields 38
  characters, more than \<open>1 + 26\<close>.
\<close>

theorem captured_output_counterexample:
  "spawnAndCapture (ChildClosed [Stdout ''ab'', Stderr ''c''] (Some 0)) 1
     = Inr \<lparr>output_text = ''a'' @ truncationSuffix 1 @ stderrHeader @ ''c'', exitCode = Some 0\<rparr>
   \<and> \<not> length (''a'' @ truncationSuffix 1 @ stderrHeader @ ''c'') \<le> 1 + length (truncationSuffix 1)"
  by code_simp

section \<open>When the tool server spawns\<close>

lemma not_Stage1 [simp]: "(s \<noteq> Stage1) = (s = Stage2)"
  by (cases s) auto

lemma spawned_setPending [simp]: "spawned (setPending w t p) = spawned w"
  by (simp add: setPending_def)

lemma spawned_deletePending [simp]: "spawned (deletePending w t) = spawned w"
  by (simp add: deletePending_def)

lemma pending_setPending [simp]:
  "pending (ctx (setPending w t p)) = (pending (ctx w))(t \<mapsto> p)"
  by (simp add: setPending_def)

lemma pending_deletePending [simp]:
  "pending (ctx (deletePending w t)) = (pending (ctx w))(t := None)"
  by (simp add: deletePending_def)

lemma policy_setPending [simp]: "policy (ctx (setPending w t p)) = policy (ctx w)"
  by (simp add: setPending_def)

lemma policy_deletePending [simp]: "policy (ctx (deletePending w t)) = policy (ctx w)"
  by (simp add: deletePending_def)

lemma spawned_doSpawn [simp]: "spawned (doSpawn w c a d) = spawned w @ [(c, a, d)]"
  by (simp add: doSpawn_def)

lemma ctx_doSpawn [simp]: "ctx (doSpawn w c a d) = ctx w"
  by (simp add: doSpawn_def)

lemma appendAudit_Inr:
  "appendAudit e w x = Inr w' \<Longrightarrow> auditOk e \<and> ctx w' = ctx w \<and> spawned w' = spawned w \<and> auditLog w' = auditLog w @ [x]"
  by (auto simp: appendAudit_def split: if_splits)

lemma appendAudit_Inl:
  "appendAudit e w x = Inl er \<Longrightarrow> \<not> auditOk e \<and> er = IOFailure"
  by (auto simp: appendAudit_def split: if_splits)

lemma appendAudit_fail [simp]: "\<not> auditOk e \<Longrightarrow> appendAudit e w x = Inl IOFailure"
  by (simp add: appendAudit_def)

lemma createPendingConfirmation_eq:
  "createPendingConfirmation e w cmd as d r = (w1, p) \<Longrightarrow>
     p = \<lparr>token = uuid e, stage = Stage1, createdAtMs = now e, expiresAtMs = now e + ttlMs (ctx w),
          command = cmd, args = as, cwd = d, reason = r\<rparr>
     \<and> w1 = setPending w (uuid e) p"
  by (auto simp: createPendingConfirmation_def Let_def)








lemma toolGenerateSshKey_spawn:
  assumes "toolGenerateSshKey h e w ps = (w', res)"
  shows "spawned w' = spawned w"
  using assms
  by (auto simp: toolGenerateSshKey_def Let_def createPendingConfirmation_def
      split: sum.splits if_splits dest!: appendAudit_Inr)





section \<open>A failed audit append fails the call\<close>









section \<open>Confirmation executes what was stored\<close>

lemma toolRun_not_allowed:
  assumes "cmd \<notin> set (allowedCommands (policy (ctx w)))"
  shows "snd (toolRun h e w cmd ao co) \<noteq> Inr x" and "fst (toolRun h e w cmd ao co) = w"
  using assms by (auto simp: toolRun_def Let_def split: sum.splits)

text \<open>
  Claim C10. Executing a stage-2 token that has not expired spawns exactly the
  command, args and cwd stored in its record and removes the record. Nothing is
  checked again: the statement holds for every policy, so also when the stored command
  is not in \<open>allowedCommands\<close>, where \<open>run\<close> of the same command fails without changing
  the state. The \<open>ssh-keygen\<close> record issued by \<open>generate_ssh_key\<close> is such a payload.
\<close>

theorem confirm_stage2_spawns_stored_payload:
  assumes "pending (ctx w) tok = Some p" and "stage p = Stage2" and "\<not> now e > expiresAtMs p"
  shows "spawned (fst (toolConfirm h e w tok)) = spawned w @ [(command p, args p, cwd p)]
       \<and> pending (ctx (fst (toolConfirm h e w tok))) tok = None
       \<and> (command p \<notin> set (allowedCommands (policy (ctx w))) \<longrightarrow>
            (\<forall>e' ao co x. snd (toolRun h e' w (command p) ao co) \<noteq> Inr x
                         \<and> fst (toolRun h e' w (command p) ao co) = w))"
proof (intro conjI impI allI)
  show "spawned (fst (toolConfirm h e w tok)) = spawned w @ [(command p, args p, cwd p)]"
    using assms
    by (auto simp: toolConfirm_def Let_def split: sum.splits dest!: appendAudit_Inr)
  show "pending (ctx (fst (toolConfirm h e w tok))) tok = None"
    using assms
    by (auto simp: toolConfirm_def Let_def split: sum.splits dest!: appendAudit_Inr)
next
  fix e' ao co x
  assume n: "command p \<notin> set (allowedCommands (policy (ctx w)))"
  show "snd (toolRun h e' w (command p) ao co) \<noteq> Inr x" using toolRun_not_allowed(1)[OF n] .
  show "fst (toolRun h e' w (command p) ao co) = w" using toolRun_not_allowed(2)[OF n] .
qed


theorem confirm_stage2_spawns_stored_payload_witness:
  "pending (ctx (session demoHost demoWorld
                  [(demoEnv ''t1'' 0, GenerateSshKey defaultSshParams),
                   (demoEnv ''t2'' 1, Confirm ''t1'')])) ''t2''
     = Some \<lparr>token = ''t2'', stage = Stage2, createdAtMs = 1, expiresAtMs = 90001,
             command = ''ssh-keygen'',
             args = [''-t'', ''ed25519'', ''-f'', ''/home/dev/.ssh/id_ed25519'',
                     ''-C'', ''smartos-mcp'', ''-N'', []],
             cwd = ''/home/dev'',
             reason = sshReason Ed25519 ''id_ed25519'' False []\<rparr>
   \<and> ''ssh-keygen'' \<notin> set (allowedCommands demoPolicy)
   \<and> spawned (fst (toolConfirm demoHost (demoEnv ''t3'' 2)
                     (session demoHost demoWorld
                        [(demoEnv ''t1'' 0, GenerateSshKey defaultSshParams),
                         (demoEnv ''t2'' 1, Confirm ''t1'')]) ''t2''))
     = [(''ssh-keygen'',
         [''-t'', ''ed25519'', ''-f'', ''/home/dev/.ssh/id_ed25519'', ''-C'', ''smartos-mcp'', ''-N'', []],
         ''/home/dev'')]
   \<and> fst (toolRun demoHost (demoEnv ''t3'' 2)
              (session demoHost demoWorld
                 [(demoEnv ''t1'' 0, GenerateSshKey defaultSshParams),
                  (demoEnv ''t2'' 1, Confirm ''t1'')])
              ''ssh-keygen''
              (Some [''-t'', ''ed25519'', ''-f'', ''/home/dev/.ssh/id_ed25519'',
                     ''-C'', ''smartos-mcp'', ''-N'', []])
              None)
     = session demoHost demoWorld
         [(demoEnv ''t1'' 0, GenerateSshKey defaultSshParams), (demoEnv ''t2'' 1, Confirm ''t1'')]"
proof -
  let ?w = "session demoHost demoWorld
              [(demoEnv ''t1'' 0, GenerateSshKey defaultSshParams), (demoEnv ''t2'' 1, Confirm ''t1'')]"
  let ?p = "\<lparr>token = ''t2'', stage = Stage2, createdAtMs = 1, expiresAtMs = 90001,
             command = ''ssh-keygen'',
             args = [''-t'', ''ed25519'', ''-f'', ''/home/dev/.ssh/id_ed25519'',
                     ''-C'', ''smartos-mcp'', ''-N'', []],
             cwd = ''/home/dev'',
             reason = sshReason Ed25519 ''id_ed25519'' False []\<rparr>"
  have p: "pending (ctx ?w) ''t2'' = Some ?p" by code_simp
  have s: "stage ?p = Stage2" by simp
  have t: "\<not> now (demoEnv ''t3'' 2) > expiresAtMs ?p" by code_simp
  have n: "''ssh-keygen'' \<notin> set (allowedCommands demoPolicy)" by code_simp
  have pol: "allowedCommands (policy (ctx ?w)) = allowedCommands demoPolicy" by code_simp
  have sp: "spawned ?w = []" by code_simp
  from confirm_stage2_spawns_stored_payload[OF p s t, of demoHost] n pol sp
  show ?thesis using p by simp
qed

section \<open>Key generation only asks for confirmation\<close>

text \<open>
  Claim C7. For every combination of arguments and in every state, a call of
  \<open>generate_ssh_key\<close> leaves the spawn calls as they were. It fails on a bad filename,
  when \<open>~/.ssh\<close> cannot be created, or when a key file exists and \<open>overwrite\<close> is not
  set, each time without touching the store; otherwise it stores a stage-1 record for
  \<open>ssh-keygen -t type -f path -C comment -N passphrase\<close> with the home directory as cwd,
  whatever the policy allows, and returns the confirmation envelope (or the I/O error
  of the audit append).
\<close>

theorem generate_ssh_key_never_spawns:
  assumes "toolGenerateSshKey h e w ps = (w', res)"
  shows "spawned w' = spawned w
       \<and> (case ensureSafeSshKeyFileName (case p_filename ps of None \<Rightarrow> ''id_ed25519'' | Some f \<Rightarrow> f) of
            Inl x \<Rightarrow> res = Inl x \<and> w' = w
          | Inr filename \<Rightarrow>
              if \<not> mkdirOk e then res = Inl IOFailure \<and> w' = w
              else if (keyExists e \<or> pubExists e) \<and> \<not> (case p_overwrite ps of None \<Rightarrow> False | Some b \<Rightarrow> b)
                then res = Inl (KeyExists filename) \<and> w' = w
              else
                (let kt = (case p_type ps of None \<Rightarrow> Ed25519 | Some k \<Rightarrow> k);
                     passphrase = (case p_passphrase ps of None \<Rightarrow> [] | Some s \<Rightarrow> s);
                     rsn = sshReason kt filename (keyExists e \<or> pubExists e) passphrase;
                     p = \<lparr>token = uuid e, stage = Stage1, createdAtMs = now e,
                          expiresAtMs = now e + ttlMs (ctx w), command = ''ssh-keygen'',
                          args = sshKeygenArgs kt
                                   (path_join [path_resolve (processCwd h) [homedir h, ''.ssh''], filename])
                                   (case p_comment ps of None \<Rightarrow> ''smartos-mcp'' | Some c \<Rightarrow> c)
                                   passphrase,
                          cwd = homedir h, reason = rsn\<rparr>
                 in pending (ctx w') = (pending (ctx w))(uuid e \<mapsto> p)
                    \<and> (if auditOk e
                        then (\<exists>x. res = Inr x
                                \<and> requiresConfirmation x
                                    = Some \<lparr>rc_token = uuid e, rc_reason = rsn,
                                            rc_expiresAt = now e + ttlMs (ctx w)\<rparr>)
                        else res = Inl IOFailure)))"
proof -
  have 1: "spawned w' = spawned w" using toolGenerateSshKey_spawn[OF assms] .
  have 2: "(case ensureSafeSshKeyFileName (case p_filename ps of None \<Rightarrow> ''id_ed25519'' | Some f \<Rightarrow> f) of
            Inl x \<Rightarrow> res = Inl x \<and> w' = w
          | Inr filename \<Rightarrow>
              if \<not> mkdirOk e then res = Inl IOFailure \<and> w' = w
              else if (keyExists e \<or> pubExists e) \<and> \<not> (case p_overwrite ps of None \<Rightarrow> False | Some b \<Rightarrow> b)
                then res = Inl (KeyExists filename) \<and> w' = w
              else
                (let kt = (case p_type ps of None \<Rightarrow> Ed25519 | Some k \<Rightarrow> k);
                     passphrase = (case p_passphrase ps of None \<Rightarrow> [] | Some s \<Rightarrow> s);
                     rsn = sshReason kt filename (keyExists e \<or> pubExists e) passphrase;
                     p = \<lparr>token = uuid e, stage = Stage1, createdAtMs = now e,
                          expiresAtMs = now e + ttlMs (ctx w), command = ''ssh-keygen'',
                          args = sshKeygenArgs kt
                                   (path_join [path_resolve (processCwd h) [homedir h, ''.ssh''], filename])
                                   (case p_comment ps of None \<Rightarrow> ''smartos-mcp'' | Some c \<Rightarrow> c)
                                   passphrase,
                          cwd = homedir h, reason = rsn\<rparr>
                 in pending (ctx w') = (pending (ctx w))(uuid e \<mapsto> p)
                    \<and> (if auditOk e
                        then (\<exists>x. res = Inr x
                                \<and> requiresConfirmation x
                                    = Some \<lparr>rc_token = uuid e, rc_reason = rsn,
                                            rc_expiresAt = now e + ttlMs (ctx w)\<rparr>)
                        else res = Inl IOFailure)))"
    using assms
    by (auto simp: toolGenerateSshKey_def Let_def createPendingConfirmation_def appendAudit_def
        split: sum.splits if_splits)
  from 1 2 show ?thesis by blast
qed


theorem generate_ssh_key_never_spawns_witness:
  "spawned (fst (toolGenerateSshKey demoHost (demoEnv ''t1'' 0) demoWorld defaultSshParams)) = []
   \<and> pending (ctx (fst (toolGenerateSshKey demoHost (demoEnv ''t1'' 0) demoWorld defaultSshParams))) ''t1''
     = Some \<lparr>token = ''t1'', stage = Stage1, createdAtMs = 0, expiresAtMs = 90000,
             command = ''ssh-keygen'',
             args = [''-t'', ''ed25519'', ''-f'', ''/home/dev/.ssh/id_ed25519'',
                     ''-C'', ''smartos-mcp'', ''-N'', []],
             cwd = ''/home/dev'',
             reason = sshReason Ed25519 ''id_ed25519'' False []\<rparr>
   \<and> ''ssh-keygen'' \<notin> set (allowedCommands demoPolicy)"
proof -
  let ?e = "demoEnv ''t1'' 0"
  let ?out = "toolGenerateSshKey demoHost ?e demoWorld defaultSshParams"
  have h: "toolGenerateSshKey demoHost ?e demoWorld defaultSshParams = (fst ?out, snd ?out)"
    by simp
  have f: "ensureSafeSshKeyFileName
             (case p_filename defaultSshParams of None \<Rightarrow> ''id_ed25519'' | Some f \<Rightarrow> f)
           = Inr ''id_ed25519''"
    by code_simp
  have ev: "mkdirOk ?e" "\<not> keyExists ?e" "\<not> pubExists ?e" "auditOk ?e" "uuid ?e = ''t1''"
    "now ?e = 0" "ttlMs (ctx demoWorld) = 90000" "spawned demoWorld = []"
    "homedir demoHost = ''/home/dev''"
    "p_type defaultSshParams = None" "p_passphrase defaultSshParams = None"
    "p_comment defaultSshParams = None"
    "sshKeygenArgs Ed25519
       (path_join [path_resolve (processCwd demoHost) [''/home/dev'', ''.ssh''], ''id_ed25519''])
       ''smartos-mcp'' []
     = [''-t'', ''ed25519'', ''-f'', ''/home/dev/.ssh/id_ed25519'', ''-C'', ''smartos-mcp'', ''-N'', []]"
    by code_simp+
  have n: "''ssh-keygen'' \<notin> set (allowedCommands demoPolicy)" by code_simp
  from generate_ssh_key_never_spawns[OF h]
  show ?thesis using n by (simp add: f ev Let_def)
qed

section \<open>Tokens are used once\<close>













section \<open>The confirmation store\<close>

lemma toolRun_keyed:
  assumes "\<forall>k p. pending (ctx w) k = Some p \<longrightarrow> token p = k"
  shows "\<forall>k p. pending (ctx (fst (toolRun h e w cmd ao co))) k = Some p \<longrightarrow> token p = k"
  using assms
  by (auto simp: toolRun_def Let_def createPendingConfirmation_def
      split: sum.splits if_splits dest!: appendAudit_Inr)

lemma toolConfirm_keyed:
  assumes "\<forall>k p. pending (ctx w) k = Some p \<longrightarrow> token p = k"
  shows "\<forall>k p. pending (ctx (fst (toolConfirm h e w tok))) k = Some p \<longrightarrow> token p = k"
  using assms
  by (auto simp: toolConfirm_def Let_def
      split: sum.splits if_splits option.splits dest!: appendAudit_Inr)

lemma toolCancel_keyed:
  assumes "\<forall>k p. pending (ctx w) k = Some p \<longrightarrow> token p = k"
  shows "\<forall>k p. pending (ctx (fst (toolCancel e w tok))) k = Some p \<longrightarrow> token p = k"
  using assms
  by (auto simp: toolCancel_def Let_def split: sum.splits if_splits dest!: appendAudit_Inr)

lemma toolGenerateSshKey_keyed:
  assumes "\<forall>k p. pending (ctx w) k = Some p \<longrightarrow> token p = k"
  shows "\<forall>k p. pending (ctx (fst (toolGenerateSshKey h e w ps))) k = Some p \<longrightarrow> token p = k"
  using assms
  by (auto simp: toolGenerateSshKey_def Let_def createPendingConfirmation_def
      split: sum.splits if_splits dest!: appendAudit_Inr)

lemma handle_keyed:
  assumes "\<forall>k p. pending (ctx w) k = Some p \<longrightarrow> token p = k"
  shows "\<forall>k p. pending (ctx (fst (handle h e w rq))) k = Some p \<longrightarrow> token p = k"
  using toolRun_keyed[OF assms] toolConfirm_keyed[OF assms] toolCancel_keyed[OF assms]
    toolGenerateSshKey_keyed[OF assms]
  by (cases rq) (simp_all add: handle_def)

lemma session_keyed:
  "\<forall>k p. pending (ctx w) k = Some p \<longrightarrow> token p = k \<Longrightarrow>
   \<forall>k p. pending (ctx (session h w ops)) k = Some p \<longrightarrow> token p = k"
proof (induction ops arbitrary: w)
  case Nil
  then show ?case by simp
next
  case (Cons a ops)
  obtain e rq where a: "a = (e, rq)" by (cases a)
  show ?case using Cons.IH[OF handle_keyed[OF Cons.prems, of h e rq]] a by simp
qed

lemma initialWorld_pending [simp]: "pending (ctx (initialWorld h pol)) = Map.empty"
  by (simp add: initialWorld_def createTerminalContext_def Let_def)

lemma toolRun_no_stage2:
  assumes "pending (ctx (fst (toolRun h e w cmd ao co))) k = Some q" and "stage q = Stage2"
  shows "pending (ctx w) k = Some q"
  using assms
  by (auto simp: toolRun_def Let_def createPendingConfirmation_def
      split: sum.splits if_splits dest!: appendAudit_Inr)

lemma toolCancel_no_stage2:
  assumes "pending (ctx (fst (toolCancel e w tok))) k = Some q"
  shows "pending (ctx w) k = Some q"
  using assms
  by (auto simp: toolCancel_def Let_def split: sum.splits if_splits dest!: appendAudit_Inr)

lemma toolGenerateSshKey_no_stage2:
  assumes "pending (ctx (fst (toolGenerateSshKey h e w ps))) k = Some q" and "stage q = Stage2"
  shows "pending (ctx w) k = Some q"
  using assms
  by (auto simp: toolGenerateSshKey_def Let_def createPendingConfirmation_def
      split: sum.splits if_splits dest!: appendAudit_Inr)

lemma toolConfirm_stage2_birth:
  assumes "pending (ctx (fst (toolConfirm h e w tok))) k = Some q" and "stage q = Stage2"
    and "pending (ctx w) k \<noteq> Some q"
  shows "\<exists>p. pending (ctx w) tok = Some p \<and> stage p = Stage1 \<and> k = uuid e \<and> token q = k
            \<and> command q = command p \<and> args q = args p \<and> cwd q = cwd p
            \<and> pending (ctx (fst (toolConfirm h e w tok))) tok \<noteq> Some p"
  using assms
  by (auto simp: toolConfirm_def Let_def
      split: sum.splits if_splits option.splits dest!: appendAudit_Inr)

text \<open>
  Claim C5, as amended. The store is a map keyed by token and may hold several records
  at once. In every state reached from startup each record is stored under its own
  token, so there is at most one record per token value. A stage-2 record appears in
  the store only in \<open>confirm\<close>: the token presented names a stage-1 record, which is
  removed, and the new record, stored under the UUID just drawn, carries the same
  command, args and cwd.
\<close>

theorem pending_store_discipline:
  "(\<forall>k p. pending (ctx (session h (initialWorld h pol) ops)) k = Some p \<longrightarrow> token p = k)
   \<and> (\<forall>e w rq k q.
         pending (ctx (fst (handle h e w rq))) k = Some q \<and> stage q = Stage2
         \<and> pending (ctx w) k \<noteq> Some q
         \<longrightarrow> (\<exists>tok p. rq = Confirm tok \<and> pending (ctx w) tok = Some p \<and> stage p = Stage1
                  \<and> k = uuid e \<and> token q = k
                  \<and> command q = command p \<and> args q = args p \<and> cwd q = cwd p
                  \<and> pending (ctx (fst (handle h e w rq))) tok \<noteq> Some p))"
proof (intro conjI allI impI)
  fix k p
  assume "pending (ctx (session h (initialWorld h pol) ops)) k = Some p"
  moreover have "\<forall>k p. pending (ctx (initialWorld h pol)) k = Some p \<longrightarrow> token p = k" by simp
  ultimately show "token p = k" using session_keyed by blast
next
  fix e w rq k q
  assume a: "pending (ctx (fst (handle h e w rq))) k = Some q \<and> stage q = Stage2
         \<and> pending (ctx w) k \<noteq> Some q"
  show "\<exists>tok p. rq = Confirm tok \<and> pending (ctx w) tok = Some p \<and> stage p = Stage1
                  \<and> k = uuid e \<and> token q = k
                  \<and> command q = command p \<and> args q = args p \<and> cwd q = cwd p
                  \<and> pending (ctx (fst (handle h e w rq))) tok \<noteq> Some p"
  proof (cases rq)
    case (Run cmd ao co)
    then show ?thesis using a toolRun_no_stage2[of h e w cmd ao co k q] by (simp add: handle_def)
  next
    case (Confirm tok)
    then show ?thesis using a toolConfirm_stage2_birth[of h e w tok k q] by (simp add: handle_def)
  next
    case (Cancel tok)
    then show ?thesis using a toolCancel_no_stage2[of e w tok k q] by (simp add: handle_def)
  next
    case (GenerateSshKey ps)
    then show ?thesis using a toolGenerateSshKey_no_stage2[of h e w ps k q] by (simp add: handle_def)
  qed
qed

text \<open>
  The store does hold two records at once: two \<open>run\<close> requests for a dangerous command
  leave two stage-1 records under two tokens.
\<close>

theorem pending_store_counterexample:
  "pending (ctx (session demoHost demoWorld
                  [(demoEnv ''t1'' 0, Run ''rm'' (Some [''x'']) None),
                   (demoEnv ''t2'' 1, Run ''rm'' (Some [''y'']) None)])) ''t1''
     = Some \<lparr>token = ''t1'', stage = Stage1, createdAtMs = 0, expiresAtMs = 90000,
             command = ''rm'', args = [''x''], cwd = ''/work/s'',
             reason = ''Command '' @ [DQ] @ ''rm'' @ [DQ] @ '' is marked dangerous by policy''\<rparr>
   \<and> pending (ctx (session demoHost demoWorld
                  [(demoEnv ''t1'' 0, Run ''rm'' (Some [''x'']) None),
                   (demoEnv ''t2'' 1, Run ''rm'' (Some [''y'']) None)])) ''t2''
     = Some \<lparr>token = ''t2'', stage = Stage1, createdAtMs = 1, expiresAtMs = 90001,
             command = ''rm'', args = [''y''], cwd = ''/work/s'',
             reason = ''Command '' @ [DQ] @ ''rm'' @ [DQ] @ '' is marked dangerous by policy''\<rparr>
   \<and> ''t1'' \<noteq> ''t2''"
  by code_simp

theorem pending_store_discipline_witness:
  "token (the (pending (ctx (session demoHost (initialWorld demoHost demoPolicy)
                               [(demoEnv ''t1'' 0, Run ''rm'' (Some [''x'']) None),
                                (demoEnv ''t2'' 1, Confirm ''t1'')])) ''t2'')) = ''t2''
   \<and> pending (ctx (fst (handle demoHost (demoEnv ''t1'' 0) demoWorld
                           (Run ''rm'' (Some [''x'']) None)))) ''t1''
     = Some \<lparr>token = ''t1'', stage = Stage1, createdAtMs = 0, expiresAtMs = 90000,
             command = ''rm'', args = [''x''], cwd = ''/work/s'',
             reason = ''Command '' @ [DQ] @ ''rm'' @ [DQ] @ '' is marked dangerous by policy''\<rparr>
   \<and> pending (ctx (fst (handle demoHost (demoEnv ''t2'' 1)
                           (fst (handle demoHost (demoEnv ''t1'' 0) demoWorld
                                   (Run ''rm'' (Some [''x'']) None)))
                           (Confirm ''t1'')))) ''t1''
     \<noteq> Some \<lparr>token = ''t1'', stage = Stage1, createdAtMs = 0, expiresAtMs = 90000,
             command = ''rm'', args = [''x''], cwd = ''/work/s'',
             reason = ''Command '' @ [DQ] @ ''rm'' @ [DQ] @ '' is marked dangerous by policy''\<rparr>"
proof -
  let ?ops = "[(demoEnv ''t1'' 0, Run ''rm'' (Some [''x'']) None), (demoEnv ''t2'' 1, Confirm ''t1'')]"
  let ?w1 = "fst (handle demoHost (demoEnv ''t1'' 0) demoWorld (Run ''rm'' (Some [''x'']) None))"
  let ?w2 = "fst (handle demoHost (demoEnv ''t2'' 1) ?w1 (Confirm ''t1''))"
  let ?p1 = "\<lparr>token = ''t1'', stage = Stage1, createdAtMs = 0, expiresAtMs = 90000,
             command = ''rm'', args = [''x''], cwd = ''/work/s'',
             reason = ''Command '' @ [DQ] @ ''rm'' @ [DQ] @ '' is marked dangerous by policy''\<rparr>"
  let ?q = "\<lparr>token = ''t2'', stage = Stage2, createdAtMs = 1, expiresAtMs = 90001,
             command = ''rm'', args = [''x''], cwd = ''/work/s'',
             reason = ''Command '' @ [DQ] @ ''rm'' @ [DQ] @ '' is marked dangerous by policy''\<rparr>"
  note d = pending_store_discipline[of demoHost demoPolicy ?ops]
  have s: "pending (ctx (session demoHost (initialWorld demoHost demoPolicy) ?ops)) ''t2'' = Some ?q"
    by code_simp
  have a: "token (the (pending (ctx (session demoHost (initialWorld demoHost demoPolicy) ?ops)) ''t2'')) = ''t2''"
    using d s by simp
  have p1: "pending (ctx ?w1) ''t1'' = Some ?p1" by code_simp
  have q: "pending (ctx ?w2) ''t2'' = Some ?q" "stage ?q = Stage2" "pending (ctx ?w1) ''t2'' \<noteq> Some ?q"
    by code_simp+
  from d q have "\<exists>tok p. Confirm ''t1'' = Confirm tok \<and> pending (ctx ?w1) tok = Some p
       \<and> pending (ctx ?w2) tok \<noteq> Some p"
    by blast
  then have "pending (ctx ?w2) ''t1'' \<noteq> Some ?p1" using p1 by auto
  then show ?thesis using a p1 by blast
qed

section \<open>Path confinement\<close>

text \<open>
  A path returned by \<open>path.resolve\<close> in a process with an absolute working directory is
  \<open>/\<close> followed by plain segments, and resolving it again returns it. So when
  \<open>resolveSandboxPath\<close> returns a path, that path is absolute and its segments extend
  those of the sandbox root; and it fails whenever the relative path has \<open>..\<close> as its
  first segment or is absolute.
\<close>

lemma splitSlash_nonempty [simp]: "splitSlash p \<noteq> []"
  by (induction p) (auto split: list.splits)

lemma splitSlash_no_slash: "s \<in> set (splitSlash p) \<Longrightarrow> CHR ''/'' \<notin> set s"
proof (induction p arbitrary: s)
  case Nil
  then show ?case by simp
next
  case (Cons c p)
  then show ?case
    by (cases "splitSlash p") (auto split: if_splits)
qed

lemma splitSlash_append_slash:
  "splitSlash (xs @ CHR ''/'' # ys) = splitSlash xs @ splitSlash ys"
proof (induction xs)
  case Nil
  then show ?case by simp
next
  case (Cons c xs)
  then show ?case
    by (cases "splitSlash xs") (auto split: list.splits)
qed

lemma splitSlash_plain: "CHR ''/'' \<notin> set s \<Longrightarrow> splitSlash s = [s]"
  by (induction s) auto

lemma splitSlash_joinSlash:
  "segs \<noteq> [] \<Longrightarrow> \<forall>s \<in> set segs. CHR ''/'' \<notin> set s \<Longrightarrow> splitSlash (joinSlash segs) = segs"
proof (induction segs rule: joinSlash.induct)
  case 1
  then show ?case by simp
next
  case (2 s)
  then show ?case by (simp add: splitSlash_plain)
next
  case (3 s t ss)
  then show ?case by (simp add: splitSlash_append_slash splitSlash_plain)
qed

lemma plainSegments_Cons [simp]:
  "plainSegments (s # segs)
     = (s \<noteq> [] \<and> s \<noteq> ''.'' \<and> s \<noteq> ''..'' \<and> CHR ''/'' \<notin> set s \<and> plainSegments segs)"
  by (auto simp: plainSegments_def)

lemma plainSegments_Nil [simp]: "plainSegments []"
  by (simp add: plainSegments_def)

lemma plainSegments_rev [simp]: "plainSegments (rev segs) = plainSegments segs"
  by (simp add: plainSegments_def list_all_iff)

lemma plainSegments_append [simp]:
  "plainSegments (xs @ ys) = (plainSegments xs \<and> plainSegments ys)"
  by (simp add: plainSegments_def)

lemma normalizeSegs_plain:
  "plainSegments acc \<Longrightarrow> \<forall>s \<in> set xs. CHR ''/'' \<notin> set s \<Longrightarrow>
   plainSegments (normalizeSegs False acc xs)"
proof (induction xs arbitrary: acc)
  case Nil
  then show ?case by simp
next
  case (Cons x xs)
  then show ?case by (cases acc) auto
qed

lemma normalizeSegs_keeps:
  "plainSegments xs \<Longrightarrow> normalizeSegs b acc (xs @ ys) = normalizeSegs b (rev xs @ acc) ys"
  by (induction xs arbitrary: acc) auto

lemma resolveScan_absolute:
  "ps \<noteq> [] \<Longrightarrow> isAbsolute (last ps) \<Longrightarrow> snd (resolveScan ps acc)"
proof (induction ps arbitrary: acc)
  case Nil
  then show ?case by simp
next
  case (Cons p ps)
  then show ?case by (cases ps) (auto simp: isAbsolute_def)
qed

lemma path_resolve_normal:
  assumes "isAbsolute pcwd"
  shows "\<exists>segs. plainSegments segs \<and> path_resolve pcwd paths = CHR ''/'' # joinSlash segs"
proof -
  obtain rp ab where r: "resolveScan (rev paths @ [pcwd]) [] = (rp, ab)"
    by (cases "resolveScan (rev paths @ [pcwd]) []")
  have "snd (resolveScan (rev paths @ [pcwd]) [])"
    by (rule resolveScan_absolute) (simp_all add: assms)
  then have ab: "ab" using r by simp
  have "plainSegments (normalizeSegs False [] (splitSlash rp))"
    by (rule normalizeSegs_plain) (auto dest: splitSlash_no_slash)
  then show ?thesis
    using r ab by (auto simp: path_resolve_def)
qed

lemma segments_normal:
  assumes "plainSegments segs"
  shows "segments (CHR ''/'' # joinSlash segs) = segs"
proof (cases segs)
  case Nil
  then show ?thesis by (simp add: segments_def)
next
  case (Cons s ss)
  have ns: "\<forall>s \<in> set segs. CHR ''/'' \<notin> set s" and ne: "\<forall>s \<in> set segs. s \<noteq> []"
    using assms by (auto simp: plainSegments_def list_all_iff)
  have "splitSlash (joinSlash segs) = segs"
    by (rule splitSlash_joinSlash) (use Cons ns in auto)
  then have "segments (CHR ''/'' # joinSlash segs) = filter (\<lambda>s. s \<noteq> []) segs"
    by (simp add: segments_def)
  also have "\<dots> = segs" using ne by (simp add: filter_id_conv)
  finally show ?thesis .
qed

lemma path_resolve_idem:
  assumes "plainSegments segs"
  shows "path_resolve pcwd [CHR ''/'' # joinSlash segs] = CHR ''/'' # joinSlash segs"
proof -
  let ?x = "CHR ''/'' # joinSlash segs"
  have r: "resolveScan (rev [?x] @ [pcwd]) [] = (?x @ ''/'', True)"
    by (simp add: isAbsolute_def)
  have n: "normalizeSegs False [] (splitSlash (joinSlash segs @ ''/'')) = segs"
  proof (cases segs)
    case Nil
    then show ?thesis by simp
  next
    case (Cons s ss)
    have ns: "\<forall>s \<in> set segs. CHR ''/'' \<notin> set s"
      using assms by (auto simp: plainSegments_def list_all_iff)
    have sj: "splitSlash (joinSlash segs) = segs"
      by (rule splitSlash_joinSlash) (use Cons ns in auto)
    have "splitSlash (joinSlash segs @ ''/'') = segs @ [[]]"
      using splitSlash_append_slash[of "joinSlash segs" "[]"] sj by simp
    then have "normalizeSegs False [] (splitSlash (joinSlash segs @ ''/''))
             = normalizeSegs False [] (segs @ [[]])"
      by simp
    also have "\<dots> = normalizeSegs False (rev segs @ []) [[]]"
      by (rule normalizeSegs_keeps) (rule assms)
    also have "\<dots> = segs" by simp
    finally show ?thesis .
  qed
  show ?thesis
    unfolding path_resolve_def r by (simp add: n)
qed

lemma dropCommon_same [simp]: "dropCommon xs xs = ([], [])"
  by (induction xs) auto

lemma dropCommon_nil: "dropCommon xs ys = ([], ts) \<Longrightarrow> ys = xs @ ts"
  by (induction xs ys rule: dropCommon.induct) (auto split: if_splits)

lemma joinSlash_up_startsWith:
  assumes "fs \<noteq> []"
  shows "startsWith (joinSlash (map (\<lambda>_. ''..'') fs @ ts)) ''..''"
proof -
  obtain f fs' where f: "fs = f # fs'" using assms by (cases fs) auto
  show ?thesis
    by (cases "map (\<lambda>_. ''..'') fs' @ ts") (simp_all add: f startsWith_def)
qed

lemma path_relative_normal:
  assumes "plainSegments rs" and "plainSegments as"
  shows "path_relative pcwd (CHR ''/'' # joinSlash rs) (CHR ''/'' # joinSlash as)
           = (case dropCommon rs as of (fs, ts) \<Rightarrow> joinSlash (map (\<lambda>_. ''..'') fs @ ts))"
proof (cases "CHR ''/'' # joinSlash rs = CHR ''/'' # joinSlash as")
  case True
  then have "segments (CHR ''/'' # joinSlash rs) = segments (CHR ''/'' # joinSlash as)" by simp
  then have "rs = as" using assms by (simp add: segments_normal)
  then show ?thesis using True by (simp add: path_relative_def)
next
  case False
  then show ?thesis
    using assms
    by (simp add: path_relative_def path_resolve_idem segments_normal Let_def)
qed

lemma resolveSandboxPath_confined:
  assumes "isAbsolute (processCwd h)"
    and "sandboxRootAbs c = path_resolve (processCwd h) ps"
    and "resolveSandboxPath h c p = Inr a"
  shows "isAbsolute a \<and> (\<exists>ts. segments a = segments (sandboxRootAbs c) @ ts)"
proof -
  obtain rs where rs: "plainSegments rs" "sandboxRootAbs c = CHR ''/'' # joinSlash rs"
    using path_resolve_normal[OF assms(1), of ps] assms(2) by auto
  define ab where "ab = (if isAbsolute p then path_resolve (processCwd h) [p]
                         else path_resolve (processCwd h) [sandboxRootAbs c, p])"
  have "\<exists>as. plainSegments as \<and> ab = CHR ''/'' # joinSlash as"
    using path_resolve_normal[OF assms(1), of "[p]"]
      path_resolve_normal[OF assms(1), of "[sandboxRootAbs c, p]"]
    unfolding ab_def by (cases "isAbsolute p") simp_all
  then obtain as where as: "plainSegments as" "ab = CHR ''/'' # joinSlash as" by blast
  from assms(3) have a: "a = ab"
    and ok: "\<not> startsWith (path_relative (processCwd h) (sandboxRootAbs c) ab) ''..''"
    unfolding ab_def by (auto simp: resolveSandboxPath_def Let_def split: if_splits)
  obtain fs ts where d: "dropCommon rs as = (fs, ts)" by (cases "dropCommon rs as")
  have rel: "path_relative (processCwd h) (sandboxRootAbs c) ab
               = joinSlash (map (\<lambda>_. ''..'') fs @ ts)"
    unfolding rs(2) as(2) using path_relative_normal[OF rs(1) as(1)] d by simp
  have "fs = []"
  proof (rule ccontr)
    assume "fs \<noteq> []"
    then have "startsWith (path_relative (processCwd h) (sandboxRootAbs c) ab) ''..''"
      unfolding rel by (rule joinSlash_up_startsWith)
    then show False using ok by simp
  qed
  then have "as = rs @ ts" using d dropCommon_nil by simp
  then have "segments a = segments (sandboxRootAbs c) @ ts"
    unfolding a as(2) rs(2) using rs(1) as(1) by (simp add: segments_normal)
  moreover have "isAbsolute a" unfolding a as(2) by (simp add: isAbsolute_def)
  ultimately show ?thesis by blast
qed

lemma resolveSandboxPath_rejects_upward:
  assumes "hd (splitSlash (path_relative (processCwd h) (sandboxRootAbs c)
                 (if isAbsolute p then path_resolve (processCwd h) [p]
                  else path_resolve (processCwd h) [sandboxRootAbs c, p]))) = ''..''
           \<or> isAbsolute (path_relative (processCwd h) (sandboxRootAbs c)
                 (if isAbsolute p then path_resolve (processCwd h) [p]
                  else path_resolve (processCwd h) [sandboxRootAbs c, p]))"
  shows "resolveSandboxPath h c p = Inl (PathEscape p)"
proof -
  have up: "\<And>r. hd (splitSlash r) = ''..'' \<Longrightarrow> startsWith r ''..''"
  proof -
    fix r assume h: "hd (splitSlash r) = ''..''"
    show "startsWith r ''..''"
    proof (cases r)
      case Nil
      then show ?thesis using h by simp
    next
      case (Cons c1 r1)
      show ?thesis
      proof (cases r1)
        case Nil
        then show ?thesis using h Cons by (auto split: if_splits)
      next
        case (Cons c2 r2)
        then show ?thesis using h \<open>r = c1 # r1\<close>
          by (cases "splitSlash r2") (auto simp: startsWith_def split: if_splits list.splits)
      qed
    qed
  qed
  show ?thesis
    using assms up by (auto simp: resolveSandboxPath_def Let_def)
qed


text \<open>
  Claim C1. The two lemmas above are the part of the claim that holds. The other
  direction fails: the guard of \<open>resolveSandboxPath\<close> tests whether the relative path
  starts with the two characters \<open>..\<close>, not whether its first segment is \<open>..\<close>. With the sandbox
  root \<open>/work/s\<close>, the user path \<open>..foo\<close> resolves to \<open>/work/s/..foo\<close>, a child of the
  root whose relative path \<open>..foo\<close> neither begins with an upward segment nor is
  absolute; the call fails all the same with the path-escape error. The same name one
  directory further down, \<open>sub/..foo\<close>, is accepted.
\<close>

theorem resolveSandboxPath_dotdot_name:
  "sandboxRootAbs (ctx demoWorld) = ''/work/s''
   \<and> path_resolve (processCwd demoHost) [sandboxRootAbs (ctx demoWorld), ''..foo''] = ''/work/s/..foo''
   \<and> segments ''/work/s/..foo'' = segments ''/work/s'' @ [''..foo'']
   \<and> path_relative (processCwd demoHost) (sandboxRootAbs (ctx demoWorld)) ''/work/s/..foo'' = ''..foo''
   \<and> resolveSandboxPath demoHost (ctx demoWorld) ''..foo'' = Inl (PathEscape ''..foo'')
   \<and> resolveSandboxPath demoHost (ctx demoWorld) ''sub/..foo'' = Inr ''/work/s/sub/..foo''"
  by code_simp

section \<open>The action parser reads back what the serializer writes\<close>

lemma hexDigit_plain: "hexDigit n \<noteq> DQ \<and> hexDigit n \<noteq> CHR 0x5C"
proof -
  have "hexDigit n \<in> set ''0123456789abcdef''"
    unfolding hexDigit_def by (rule nth_mem) simp
  then show ?thesis by (auto simp: DQ_def)
qed

lemma scanObject_escapeChar:
  "scanObject (escapeChar c @ rest) d True False i
     = scanObject rest d True False (i + length (escapeChar c))"
  using hexDigit_plain[of "of_char c div 16"] hexDigit_plain[of "of_char c mod 16"]
  by (simp add: escapeChar_def DQ_def)

lemma scanObject_string_body:
  "scanObject (concat (map escapeChar s) @ rest) d True False i
     = scanObject rest d True False (i + length (concat (map escapeChar s)))"
proof (induction s arbitrary: i)
  case Nil
  then show ?case by simp
next
  case (Cons c s)
  have "scanObject (concat (map escapeChar (c # s)) @ rest) d True False i
      = scanObject (escapeChar c @ (concat (map escapeChar s) @ rest)) d True False i"
    by simp
  also have "\<dots> = scanObject (concat (map escapeChar s) @ rest) d True False (i + length (escapeChar c))"
    by (rule scanObject_escapeChar)
  also have "\<dots> = scanObject rest d True False (i + length (escapeChar c) + length (concat (map escapeChar s)))"
    by (rule Cons.IH)
  finally show ?case by (simp add: add.assoc)
qed

lemma scanObject_quoteJSON:
  "scanObject (quoteJSON s @ rest) d False False i
     = scanObject rest d False False (i + length (quoteJSON s))"
proof -
  have "scanObject (quoteJSON s @ rest) d False False i
      = scanObject (concat (map escapeChar s) @ (DQ # rest)) d True False (Suc i)"
    by (simp add: quoteJSON_def)
  also have "\<dots> = scanObject (DQ # rest) d True False (Suc i + length (concat (map escapeChar s)))"
    by (rule scanObject_string_body)
  also have "\<dots> = scanObject rest d False False (i + length (quoteJSON s))"
    by (simp add: quoteJSON_def DQ_def)
  finally show ?thesis .
qed

lemma scanObject_plain:
  assumes "d \<noteq> 0" and "\<forall>c \<in> set xs. c \<noteq> DQ \<and> c \<noteq> CHR ''{'' \<and> c \<noteq> CHR ''}''"
  shows "scanObject (xs @ rest) d False False i = scanObject rest d False False (i + length xs)"
  using assms(2)
proof (induction xs arbitrary: i)
  case Nil
  then show ?case by simp
next
  case (Cons c xs)
  then show ?case using assms(1) by (simp add: Let_def)
qed

lemma showNat_digits: "set (showNat n) \<subseteq> set ''0123456789''"
proof (induction n rule: showNat.induct)
  case (1 n)
  have d: "\<And>k. digitChar k \<in> set ''0123456789''"
    unfolding digitChar_def by (rule nth_mem) simp
  show ?case
  proof (cases "n < 10")
    case True
    then show ?thesis using d[of n] by (subst showNat.simps) simp
  next
    case False
    then show ?thesis using 1 d[of "n mod 10"] by (subst showNat.simps) auto
  qed
qed

lemma showInt_plain: "\<forall>c \<in> set (showInt n). c \<noteq> DQ \<and> c \<noteq> CHR ''{'' \<and> c \<noteq> CHR ''}''"
  using showNat_digits[of "nat n"] showNat_digits[of "nat (- n)"]
  by (auto simp: showInt_def DQ_def)

lemma scanObject_stringify:
  "(\<forall>d rest i. 0 < d \<longrightarrow>
      scanObject (stringify v @ rest) d False False i
        = scanObject rest d False False (i + length (stringify v)))"
  "(\<forall>d rest i. 0 < d \<longrightarrow>
      scanObject (stringifyElements xs @ rest) d False False i
        = scanObject rest d False False (i + length (stringifyElements xs)))"
  "(\<forall>d rest i. 0 < d \<longrightarrow>
      scanObject (stringifyMembers kvs @ rest) d False False i
        = scanObject rest d False False (i + length (stringifyMembers kvs)))"
proof (induction v and xs and kvs rule: stringify_stringifyElements_stringifyMembers.induct)
  case 1
  show ?case using scanObject_plain[of _ "''null''"] by (auto simp: DQ_def)
next
  case (2 b)
  show ?case using scanObject_plain[of _ "''true''"] scanObject_plain[of _ "''false''"]
    by (auto simp: DQ_def)
next
  case (3 n)
  show ?case using scanObject_plain[OF _ showInt_plain[of n]] by auto
next
  case (4 s)
  show ?case using scanObject_quoteJSON by simp
next
  case (5 xs)
  show ?case
  proof (intro allI impI)
    fix d :: int and rest i
    assume d: "0 < d"
    have "scanObject (stringify (JArr xs) @ rest) d False False i
        = scanObject (stringifyElements xs @ (CHR '']'' # rest)) d False False (Suc i)"
      using d by (simp add: DQ_def)
    also have "\<dots> = scanObject (CHR '']'' # rest) d False False (Suc i + length (stringifyElements xs))"
      using 5 d by blast
    also have "\<dots> = scanObject rest d False False (i + length (stringify (JArr xs)))"
      using d by (simp add: DQ_def)
    finally show "scanObject (stringify (JArr xs) @ rest) d False False i
        = scanObject rest d False False (i + length (stringify (JArr xs)))" .
  qed
next
  case (6 kvs)
  show ?case
  proof (intro allI impI)
    fix d :: int and rest i
    assume d: "0 < d"
    have "scanObject (stringify (JObj kvs) @ rest) d False False i
        = scanObject (stringifyMembers kvs @ (CHR ''}'' # rest)) (d + 1) False False (Suc i)"
      using d by (simp add: DQ_def)
    also have "\<dots> = scanObject (CHR ''}'' # rest) (d + 1) False False (Suc i + length (stringifyMembers kvs))"
      using 6 d by simp
    also have "\<dots> = scanObject rest d False False (i + length (stringify (JObj kvs)))"
      using d by (simp add: DQ_def)
    finally show "scanObject (stringify (JObj kvs) @ rest) d False False i
        = scanObject rest d False False (i + length (stringify (JObj kvs)))" .
  qed
next
  case 7
  show ?case by simp
next
  case (8 x)
  then show ?case by simp
next
  case (9 x y ys)
  show ?case
  proof (intro allI impI)
    fix d :: int and rest i
    assume d: "0 < d"
    have "scanObject (stringifyElements (x # y # ys) @ rest) d False False i
        = scanObject (stringify x @ (CHR '','' # stringifyElements (y # ys) @ rest)) d False False i"
      by simp
    also have "\<dots> = scanObject (CHR '','' # stringifyElements (y # ys) @ rest) d False False
                         (i + length (stringify x))"
      using 9(1) d by blast
    also have "\<dots> = scanObject (stringifyElements (y # ys) @ rest) d False False
                         (Suc (i + length (stringify x)))"
      using d by (simp add: DQ_def)
    also have "\<dots> = scanObject rest d False False
                         (Suc (i + length (stringify x)) + length (stringifyElements (y # ys)))"
      using 9(2) d by blast
    finally show "scanObject (stringifyElements (x # y # ys) @ rest) d False False i
        = scanObject rest d False False (i + length (stringifyElements (x # y # ys)))"
      by (simp add: add.assoc)
  qed
next
  case 10
  show ?case by simp
next
  case (11 k v)
  show ?case
  proof (intro allI impI)
    fix d :: int and rest i
    assume d: "0 < d"
    have "scanObject (stringifyMembers [(k, v)] @ rest) d False False i
        = scanObject (quoteJSON k @ (CHR '':'' # stringify v @ rest)) d False False i"
      by simp
    also have "\<dots> = scanObject (CHR '':'' # stringify v @ rest) d False False (i + length (quoteJSON k))"
      by (rule scanObject_quoteJSON)
    also have "\<dots> = scanObject (stringify v @ rest) d False False (Suc (i + length (quoteJSON k)))"
      using d by (simp add: DQ_def)
    also have "\<dots> = scanObject rest d False False (Suc (i + length (quoteJSON k)) + length (stringify v))"
      using 11 d by blast
    finally show "scanObject (stringifyMembers [(k, v)] @ rest) d False False i
        = scanObject rest d False False (i + length (stringifyMembers [(k, v)]))"
      by (simp add: add.assoc)
  qed
next
  case (12 k v m ms)
  show ?case
  proof (intro allI impI)
    fix d :: int and rest i
    assume d: "0 < d"
    have "scanObject (stringifyMembers ((k, v) # m # ms) @ rest) d False False i
        = scanObject (quoteJSON k @ (CHR '':'' # stringify v @ CHR '','' # stringifyMembers (m # ms) @ rest))
            d False False i"
      by simp
    also have "\<dots> = scanObject (CHR '':'' # stringify v @ CHR '','' # stringifyMembers (m # ms) @ rest)
                         d False False (i + length (quoteJSON k))"
      by (rule scanObject_quoteJSON)
    also have "\<dots> = scanObject (stringify v @ (CHR '','' # stringifyMembers (m # ms) @ rest))
                         d False False (Suc (i + length (quoteJSON k)))"
      using d by (simp add: DQ_def)
    also have "\<dots> = scanObject (CHR '','' # stringifyMembers (m # ms) @ rest) d False False
                         (Suc (i + length (quoteJSON k)) + length (stringify v))"
      using 12(1) d by blast
    also have "\<dots> = scanObject (stringifyMembers (m # ms) @ rest) d False False
                         (Suc (Suc (i + length (quoteJSON k)) + length (stringify v)))"
      using d by (simp add: DQ_def)
    also have "\<dots> = scanObject rest d False False
                         (Suc (Suc (i + length (quoteJSON k)) + length (stringify v))
                          + length (stringifyMembers (m # ms)))"
      using 12(2) d by blast
    finally show "scanObject (stringifyMembers ((k, v) # m # ms) @ rest) d False False i
        = scanObject rest d False False (i + length (stringifyMembers ((k, v) # m # ms)))"
      by (simp add: add.assoc)
  qed
qed

lemma extract_stringify_object:
  "extractFirstJsonObjectString (stringify (JObj kvs)) = Some (stringify (JObj kvs))"
proof -
  let ?m = "stringifyMembers kvs"
  have "scanObject (stringify (JObj kvs)) 0 False False 0
      = scanObject (?m @ ''}'') 1 False False (Suc 0)"
    by (simp add: DQ_def)
  also have "\<dots> = scanObject ''}'' 1 False False (Suc 0 + length ?m)"
    using scanObject_stringify(3)[of kvs] by simp
  also have "\<dots> = Some (length (stringify (JObj kvs)))"
    by (simp add: DQ_def)
  finally show ?thesis
    by (simp add: extractFirstJsonObjectString_def)
qed

lemma trim_id:
  assumes "s \<noteq> []" and "\<not> isWhiteSpace (hd s)" and "\<not> isWhiteSpace (last s)"
  shows "trim s = s"
proof -
  have 1: "trimStart s = s"
    using assms(1,2) by (cases s) (simp_all add: trimStart_def)
  have "dropWhile isWhiteSpace (rev s) = rev s"
    using assms(1,3) by (cases "rev s") (simp_all add: last_rev[symmetric] hd_rev)
  then have 2: "trimEnd s = s" by (simp add: trimEnd_def)
  show ?thesis by (simp add: trim_def 1 2)
qed

lemma stringify_object_shape:
  "stringify (JObj kvs) \<noteq> []" "hd (stringify (JObj kvs)) = CHR ''{''"
  "last (stringify (JObj kvs)) = CHR ''}''"
  by simp_all

lemma endsWith_last:
  assumes "endsWith s p" and "p \<noteq> []"
  shows "last s = last p"
proof -
  from assms(1) have d: "drop (length s - length p) s = p" and l: "length p \<le> length s"
    by (simp_all add: endsWith_def)
  from l assms(2) have "length s - length p < length s"
    by (cases p) simp_all
  then have "last (drop (length s - length p) s) = last s" by (rule last_drop)
  then show ?thesis using d by simp
qed

lemma safeJsonParse_stringify_object:
  "safeJsonParse parse (stringify (JObj kvs)) = parse (stringify (JObj kvs))"
proof -
  let ?s = "stringify (JObj kvs)"
  have t: "trim ?s = ?s"
    by (rule trim_id) (simp_all add: isWhiteSpace_def)
  have l: "stripLeadingFence ?s = ?s"
    by (simp add: stripLeadingFence_def startsWith_def)
  have "\<not> endsWith ?s ''```''"
  proof
    assume "endsWith ?s ''```''"
    then have "last ?s = last ''```''" by (rule endsWith_last) simp
    then show False by simp
  qed
  then have r: "stripTrailingFence ?s = ?s"
    by (simp add: stripTrailingFence_def)
  show ?thesis
    unfolding safeJsonParse_def Let_def t l r extract_stringify_object by simp
qed

lemma renderAction_object: "\<exists>kvs. renderAction a = JObj kvs"
  by (cases a) (simp_all add: renderAction_def)

text \<open>
  Claim C9. Let \<open>a\<close> be an action: \<open>final\<close> with a text, or \<open>tool\<close> with a server, a tool
  and optionally an object of arguments, and let the runtime's \<open>JSON.parse\<close> read the
  serialization of \<open>a\<close> back as the value serialized. Then \<open>parseAction\<close> on that
  serialization returns \<open>a\<close>, with a missing \<open>args\<close> read as the empty object: trimming
  and fence stripping leave the text as it is, and the brace scanner returns the whole
  of it, whatever braces, quotes and backslashes the strings inside contain.
\<close>

theorem parseAction_roundtrip:
  assumes "parse (stringify (renderAction a)) = Inr (renderAction a)"
  shows "parseAction parse (stringify (renderAction a)) = Inr (withDefaultArgs a)"
proof -
  obtain kvs where k: "renderAction a = JObj kvs" using renderAction_object by blast
  have sp: "safeJsonParse parse (stringify (renderAction a)) = Inr (renderAction a)"
    using assms unfolding k by (simp only: safeJsonParse_stringify_object)
  show ?thesis
  proof (cases a)
    case (Final t)
    show ?thesis unfolding parseAction_def sp
      by (simp add: Final renderAction_def withDefaultArgs_def)
  next
    case (Tool sname tname ao)
    show ?thesis unfolding parseAction_def sp
      by (cases ao) (simp_all add: Tool renderAction_def withDefaultArgs_def)
  qed
qed

theorem parseAction_roundtrip_witness:
  "readJSON (stringify (renderAction (Tool ''terminal-server'' ''search'' None)))
     = Inr (renderAction (Tool ''terminal-server'' ''search'' None))
   \<and> parseAction readJSON (stringify (renderAction (Tool ''terminal-server'' ''search'' None)))
     = Inr (Tool ''terminal-server'' ''search'' (Some []))"
proof -
  have p: "readJSON (stringify (renderAction (Tool ''terminal-server'' ''search'' None)))
             = Inr (renderAction (Tool ''terminal-server'' ''search'' None))"
    by code_simp
  have w: "withDefaultArgs (Tool ''terminal-server'' ''search'' None)
             = Tool ''terminal-server'' ''search'' (Some [])"
    by (simp add: withDefaultArgs_def)
  from parseAction_roundtrip[of readJSON "Tool ''terminal-server'' ''search'' None", OF p] p w
  show ?thesis by simp
qed

section \<open>No tool call is dispatched twice in a turn\<close>

lemma dispatched_push [simp]: "dispatched (push st r c) = dispatched st"
  by (simp add: push_def)











end
